theory Spec2Isabelle
  imports Main "HOL-Library.AList" "HOL-Library.Sublist"
begin

section \<open>JavaScript values and business records\<close>

text \<open>
  A business record is a plain JavaScript object: an ordered list of properties
  (insertion order is what \<^verbatim>\<open>Object.keys\<close> reports). A number is carried by
  its \<^verbatim>\<open>String(n)\<close> rendering, since the scraper never computes with the
  numbers of a record, it only prints them. Reading a property that is absent
  yields \<^verbatim>\<open>undefined\<close>, here \<open>None\<close>.
\<close>

datatype jsval = JStr string | JNum string | JBool bool | JNull

type_synonym jsobject = "(string \<times> jsval) list"

definition getProp :: "jsobject \<Rightarrow> string \<Rightarrow> jsval option" where
  "getProp obj k = map_of obj k"

definition objectKeys :: "jsobject \<Rightarrow> string list" where
  "objectKeys obj = map fst obj"

text \<open>String conversion inside a template literal \<^verbatim>\<open>`${v}`\<close>.\<close>

fun templateString :: "jsval option \<Rightarrow> string" where
  "templateString None = ''undefined''"
| "templateString (Some (JStr s)) = s"
| "templateString (Some (JNum s)) = s"
| "templateString (Some (JBool b)) = (if b then ''true'' else ''false'')"
| "templateString (Some JNull) = ''null''"

text \<open>
  The object literal at the end of \<^verbatim>\<open>extractBusinessData\<close> (maps.js, lines
  253-267); \<^verbatim>\<open>x || d\<close> on strings takes \<open>d\<close> when \<open>x\<close> is empty. The arguments
  are the values scraped from the page: \<open>stars\<close> and \<open>numberOfReviews\<close> are a
  number or \<^verbatim>\<open>null\<close>, \<open>website\<close> may be \<^verbatim>\<open>undefined\<close>.
\<close>

definition orElse :: "string \<Rightarrow> string \<Rightarrow> string" where
  "orElse x d = (if x = [] then d else x)"

definition startsWith :: "string \<Rightarrow> string \<Rightarrow> bool" where
  "startsWith s p = (take (length p) s = p)"

definition business ::
  "string \<Rightarrow> string \<Rightarrow> string \<Rightarrow> string \<Rightarrow> string \<Rightarrow> string \<Rightarrow> string option \<Rightarrow> string \<Rightarrow>
   jsval \<Rightarrow> jsval \<Rightarrow> string \<Rightarrow> string \<Rightarrow> string \<Rightarrow> jsobject" where
  "business sourceId storeName category formattedAddress phoneNumbers url website ratingText
     stars numberOfReviews priceLevel openHours timestamp =
   [(''source_id'', JStr sourceId),
    (''name'', JStr storeName),
    (''category'', JStr (orElse category ''Unknown'')),
    (''formatted_address'', JStr (orElse formattedAddress '''')),
    (''phone_number'', JStr (orElse phoneNumbers '''')),
    (''source_url'', JStr (if startsWith url ''http'' then url else ''https://www.google.com'' @ url)),
    (''website_url'', JStr (case website of None \<Rightarrow> '''' | Some w \<Rightarrow> orElse w '''')),
    (''rating_text'', JStr (orElse ratingText '''')),
    (''stars'', stars),
    (''number_of_reviews'', numberOfReviews),
    (''price_level'', JStr (orElse priceLevel '''')),
    (''open_hours'', JStr (orElse openHours '''')),
    (''extraction_timestamp'', JStr timestamp)]"

section \<open>Deduplication\<close>

text \<open>
  \<^verbatim>\<open>removeDuplicates\<close> (lines 656-664): the key is the template literal
  \<^verbatim>\<open>`${business.name}-${business.address}-${business.phone}`\<close>, the filter
  keeps a record when its key has not been seen and records the key.
\<close>

definition dedupKey :: "jsobject \<Rightarrow> string" where
  "dedupKey b =
     templateString (getProp b ''name'') @ ''-'' @ templateString (getProp b ''address'') @ ''-'' @
     templateString (getProp b ''phone'')"

fun removeDuplicates_filter :: "string set \<Rightarrow> jsobject list \<Rightarrow> jsobject list" where
  "removeDuplicates_filter seen [] = []"
| "removeDuplicates_filter seen (b # bs) =
     (let key = dedupKey b in
      if key \<in> seen then removeDuplicates_filter seen bs
      else b # removeDuplicates_filter (insert key seen) bs)"

definition removeDuplicates :: "jsobject list \<Rightarrow> jsobject list" where
  "removeDuplicates businesses = removeDuplicates_filter {} businesses"

text \<open>
  The identity key as the specification words it: the triple of name, formatted
  address and phone number, the empty string standing for a missing field.
\<close>

definition fieldOrEmpty :: "jsobject \<Rightarrow> string \<Rightarrow> string" where
  "fieldOrEmpty b k = (case getProp b k of None \<Rightarrow> '''' | Some v \<Rightarrow> templateString (Some v))"

definition spec_identityKey :: "jsobject \<Rightarrow> string \<times> string \<times> string" where
  "spec_identityKey b =
     (fieldOrEmpty b ''name'', fieldOrEmpty b ''formatted_address'', fieldOrEmpty b ''phone_number'')"

section \<open>Locations, configuration, the progress tree\<close>

text \<open>
  A thrown JavaScript \<^verbatim>\<open>Error\<close>: its \<^verbatim>\<open>name\<close> and its \<^verbatim>\<open>message\<close>.
  These are the errors of the orchestrator (those of fs-extra, of the run time
  and of the fetcher, which throws TypeErrors only); its \<^verbatim>\<open>catch\<close>
  blocks do no more with an error than print its message.
\<close>

datatype js_error = JsError string string

text \<open>
  The objects of the country-state-city service: the scraper reads their
  \<^verbatim>\<open>name\<close> and \<^verbatim>\<open>iso2\<close>. An entry of a list may be \<^verbatim>\<open>null\<close>
  (the loops test \<^verbatim>\<open>if (!state) continue\<close>), hence lists of options.
\<close>

record location =
  name :: string
  iso2 :: string

text \<open>\<^verbatim>\<open>CONFIG\<close> (lines 498-521), with \<^verbatim>\<open>__dirname\<close> and the allow-list loaded at start.\<close>

record config =
  includeCities :: bool
  localize :: bool
  parallel :: nat
  minDelay :: int
  maxDelay :: int
  retryCount :: nat
  exportFormats :: "string list"
  allowedCategories :: "string list"
  dirname :: string

text \<open>
  The progress tree, \<^verbatim>\<open>{ completed: { countries: {}, states: {}, cities: {} } }\<close>.
  A file written by hand may lack \<^verbatim>\<open>completed\<close> or one of its three objects;
  the code guards its reads with \<^verbatim>\<open>?.\<close> and creates a missing inner object
  before writing to it, so each level is optional here.
\<close>

record completedTree =
  completedCountries :: "(string \<rightharpoonup> bool) option"
  completedStates :: "(string \<rightharpoonup> bool) option"
  completedCities :: "(string \<rightharpoonup> bool) option"

record progress =
  completed :: "completedTree option"

definition emptyProgress :: progress where
  "emptyProgress =
     \<lparr>completed = Some \<lparr>completedCountries = Some Map.empty, completedStates = Some Map.empty,
       completedCities = Some Map.empty\<rparr>\<rparr>"

text \<open>\<^verbatim>\<open>progressData.completed?.countries?.[key]\<close> and its two siblings, as conditions.\<close>

definition isCountryDone :: "progress \<Rightarrow> string \<Rightarrow> bool" where
  "isCountryDone pd key =
     (case completed pd of None \<Rightarrow> False
      | Some c \<Rightarrow> (case completedCountries c of None \<Rightarrow> False | Some m \<Rightarrow> m key = Some True))"

definition isStateDone :: "progress \<Rightarrow> string \<Rightarrow> bool" where
  "isStateDone pd key =
     (case completed pd of None \<Rightarrow> False
      | Some c \<Rightarrow> (case completedStates c of None \<Rightarrow> False | Some m \<Rightarrow> m key = Some True))"

definition isCityDone :: "progress \<Rightarrow> string \<Rightarrow> bool" where
  "isCityDone pd key =
     (case completed pd of None \<Rightarrow> False
      | Some c \<Rightarrow> (case completedCities c of None \<Rightarrow> False | Some m \<Rightarrow> m key = Some True))"

text \<open>
  \<^verbatim>\<open>if (!progressData.completed.X) progressData.completed.X = {};
  progressData.completed.X[key] = true;\<close>
  Reading \<^verbatim>\<open>.X\<close> of an undefined \<^verbatim>\<open>completed\<close> throws a TypeError.
\<close>

definition orEmpty :: "(string \<rightharpoonup> bool) option \<Rightarrow> (string \<rightharpoonup> bool)" where
  "orEmpty m = (case m of None \<Rightarrow> Map.empty | Some f \<Rightarrow> f)"

definition readOfUndefined :: js_error where
  "readOfUndefined = JsError ''TypeError'' ''Cannot read properties of undefined''"

definition markCountryComplete :: "progress \<Rightarrow> string \<Rightarrow> js_error + progress" where
  "markCountryComplete pd key =
     (case completed pd of None \<Rightarrow> Inl readOfUndefined
      | Some c \<Rightarrow> Inr (pd\<lparr>completed := Some (c\<lparr>completedCountries := Some ((orEmpty (completedCountries c))(key \<mapsto> True))\<rparr>)\<rparr>))"

definition markStateComplete :: "progress \<Rightarrow> string \<Rightarrow> js_error + progress" where
  "markStateComplete pd key =
     (case completed pd of None \<Rightarrow> Inl readOfUndefined
      | Some c \<Rightarrow> Inr (pd\<lparr>completed := Some (c\<lparr>completedStates := Some ((orEmpty (completedStates c))(key \<mapsto> True))\<rparr>)\<rparr>))"

definition markCityComplete :: "progress \<Rightarrow> string \<Rightarrow> js_error + progress" where
  "markCityComplete pd key =
     (case completed pd of None \<Rightarrow> Inl readOfUndefined
      | Some c \<Rightarrow> Inr (pd\<lparr>completed := Some (c\<lparr>completedCities := Some ((orEmpty (completedCities c))(key \<mapsto> True))\<rparr>)\<rparr>))"

section \<open>The world: files, the global progress tree, the trace of effects\<close>

text \<open>
  A path is the list of segments handed to \<^verbatim>\<open>path.join\<close>. What a file holds:
  a progress tree, an array of records, the CSV file that
  \<^verbatim>\<open>createObjectCsvWriter({path, header}).writeRecords(data)\<close> writes (its
  header ids and the records), the workbook whose one sheet, of the given name,
  is \<^verbatim>\<open>XLSX.utils.json_to_sheet(data)\<close>, or bytes that are not JSON.
\<close>

type_synonym path = "string list"

datatype content =
    ProgressJson progress
  | RecordsJson "jsobject list"
  | CsvFile "string list" "jsobject list"
  | XlsxFile string "jsobject list"
  | Unparsable

text \<open>
  The effects the scraper has on its surroundings, in the order it issues them:
  a call of the fetcher \<^verbatim>\<open>searchGoogleMaps(searchQuery, countrycode)\<close>, a
  pause \<^verbatim>\<open>setTimeout(r, getRandomInt(lo, hi))\<close>, a worker taking
  \<^verbatim>\<open>cities[cityIndex++]\<close> at an index, and the file-system calls.
\<close>

datatype event =
    Fetch string string
  | Sleep int int
  | Claim nat
  | EnsureDir path
  | PathExists path
  | ReadJson path
  | WriteFile path content

record world =
  progressData :: progress
  files :: "path \<rightharpoonup> content"
  trace :: "event list"

text \<open>
  What the scraper does not decide: the fetcher's outcome, whether a file-system
  call fails, which suspended worker resumes next, the permutation
  \<^verbatim>\<open>_.shuffle\<close> draws, the location service, the locale table
  (\<^verbatim>\<open>utils/countrylocalemap.js\<close>, of which the scraper reads
  \<^verbatim>\<open>info.languages\<close>) and the translator. The fetcher, the scheduler,
  the shuffle and the file system may depend on everything that happened so
  far (the trace). The number \<^verbatim>\<open>getRandomInt(lo, hi)\<close> of
  \<^verbatim>\<open>utils/helpers.js\<close> is not drawn: a pause is recorded with the two
  bounds.
\<close>

record env =
  fetch :: "event list \<Rightarrow> string \<Rightarrow> string \<Rightarrow> js_error + jsobject list"
  fsError :: "event list \<Rightarrow> js_error option"
  sched :: "event list \<Rightarrow> nat \<Rightarrow> nat"
  shuffle :: "event list \<Rightarrow> location option list \<Rightarrow> location option list"
  statesByCountry :: "string \<Rightarrow> js_error + location option list"
  citiesByCountryState :: "string \<Rightarrow> string \<Rightarrow> js_error + location option list"
  countrylocalemap :: "string \<Rightarrow> js_error + string list option"
  translate :: "string \<Rightarrow> string option \<Rightarrow> js_error + string"

definition emit :: "event \<Rightarrow> world \<Rightarrow> world" where
  "emit ev w = w\<lparr>trace := trace w @ [ev]\<rparr>"

subsection \<open>fs-extra\<close>

text \<open>
  A file-system call is recorded, then fails or not; a failed call leaves the
  files as they were. Directories are not modelled: \<^verbatim>\<open>ensureDir\<close> only
  succeeds or fails.
\<close>

definition ensureDir :: "env \<Rightarrow> path \<Rightarrow> world \<Rightarrow> js_error option \<times> world" where
  "ensureDir env p w = (let w' = emit (EnsureDir p) w in (fsError env (trace w'), w'))"

definition writeFile :: "env \<Rightarrow> path \<Rightarrow> content \<Rightarrow> world \<Rightarrow> js_error option \<times> world" where
  "writeFile env p c w =
     (let w' = emit (WriteFile p c) w in
      case fsError env (trace w') of
        Some e \<Rightarrow> (Some e, w')
      | None \<Rightarrow> (None, w'\<lparr>files := (files w')(p \<mapsto> c)\<rparr>))"

definition pathExists :: "env \<Rightarrow> path \<Rightarrow> world \<Rightarrow> (js_error + bool) \<times> world" where
  "pathExists env p w =
     (let w' = emit (PathExists p) w in
      case fsError env (trace w') of
        Some e \<Rightarrow> (Inl e, w')
      | None \<Rightarrow> (Inr (files w' p \<noteq> None), w'))"

definition readJson :: "env \<Rightarrow> path \<Rightarrow> world \<Rightarrow> (js_error + content) \<times> world" where
  "readJson env p w =
     (let w' = emit (ReadJson p) w in
      case fsError env (trace w') of
        Some e \<Rightarrow> (Inl e, w')
      | None \<Rightarrow>
          (case files w' p of
             None \<Rightarrow> (Inl (JsError ''Error'' ''ENOENT''), w')
           | Some (ProgressJson pd) \<Rightarrow> (Inr (ProgressJson pd), w')
           | Some (RecordsJson bs) \<Rightarrow> (Inr (RecordsJson bs), w')
           | Some _ \<Rightarrow> (Inl (JsError ''SyntaxError'' ''Unexpected token''), w')))"

subsection \<open>Loading and saving the progress tree\<close>

definition progressPath :: "config \<Rightarrow> string \<Rightarrow> string \<Rightarrow> path" where
  "progressPath cfg query countryCode = [dirname cfg, ''output'', query, countryCode, ''progress.json'']"

text \<open>
  \<^verbatim>\<open>loadProgress\<close> (lines 667-678): any failure is caught and the empty tree
  returned. A JSON array in the file is returned as it is; it has no
  \<^verbatim>\<open>completed\<close> property, which is all the scraper ever reads of it.
\<close>

definition loadProgress :: "env \<Rightarrow> config \<Rightarrow> string \<Rightarrow> string \<Rightarrow> world \<Rightarrow> progress \<times> world" where
  "loadProgress env cfg query countryCode w =
     (case pathExists env (progressPath cfg query countryCode) w of
        (Inl e, w1) \<Rightarrow> (emptyProgress, w1)
      | (Inr False, w1) \<Rightarrow> (emptyProgress, w1)
      | (Inr True, w1) \<Rightarrow>
          (case readJson env (progressPath cfg query countryCode) w1 of
             (Inl e, w2) \<Rightarrow> (emptyProgress, w2)
           | (Inr (ProgressJson pd), w2) \<Rightarrow> (pd, w2)
           | (Inr _, w2) \<Rightarrow> (\<lparr>completed = None\<rparr>, w2)))"

text \<open>
  \<^verbatim>\<open>saveProgress\<close> (lines 681-689): \<^verbatim>\<open>ensureDir\<close> of the directory, then
  \<^verbatim>\<open>writeJson\<close> to the progress path itself; a failure of either is caught
  and logged.
\<close>

definition saveProgress :: "env \<Rightarrow> config \<Rightarrow> string \<Rightarrow> string \<Rightarrow> progress \<Rightarrow> world \<Rightarrow> world" where
  "saveProgress env cfg query countryCode pd w =
     (case ensureDir env (butlast (progressPath cfg query countryCode)) w of
        (Some e, w1) \<Rightarrow> w1
      | (None, w1) \<Rightarrow> snd (writeFile env (progressPath cfg query countryCode) (ProgressJson pd) w1))"

subsection \<open>Exports\<close>

text \<open>
  \<^verbatim>\<open>String.prototype.toLowerCase\<close> and \<^verbatim>\<open>replace(/\s+/g, '_')\<close>, on ASCII:
  every run of white space becomes one underscore.
\<close>

definition toLowerChar :: "char \<Rightarrow> char" where
  "toLowerChar c =
     (let n = (of_char c :: nat) in if 65 \<le> n \<and> n \<le> 90 then char_of (n + 32) else c)"

definition toLowerCase :: "string \<Rightarrow> string" where
  "toLowerCase s = map toLowerChar s"

definition isSpace :: "char \<Rightarrow> bool" where
  "isSpace c = ((of_char c :: nat) = 32 \<or> (9 \<le> (of_char c :: nat) \<and> (of_char c :: nat) \<le> 13))"

fun replaceSpaces_from :: "bool \<Rightarrow> string \<Rightarrow> string" where
  "replaceSpaces_from inRun [] = []"
| "replaceSpaces_from inRun (c # cs) =
     (if isSpace c then
        (if inRun then replaceSpaces_from True cs else CHR ''_'' # replaceSpaces_from True cs)
      else c # replaceSpaces_from False cs)"

definition replaceSpaces :: "string \<Rightarrow> string" where
  "replaceSpaces s = replaceSpaces_from False s"

text \<open>
  \<^verbatim>\<open>exportJSON\<close>, \<^verbatim>\<open>exportCSV\<close> and \<^verbatim>\<open>exportXLSX\<close> (lines 692-713).
  \<^verbatim>\<open>exportCSV\<close> writes nothing for an empty batch and takes its header from
  \<^verbatim>\<open>Object.keys(data[0])\<close>.
\<close>

definition exportJSON :: "env \<Rightarrow> jsobject list \<Rightarrow> path \<Rightarrow> world \<Rightarrow> js_error option \<times> world" where
  "exportJSON env data filePath w = writeFile env filePath (RecordsJson data) w"

definition exportCSV :: "env \<Rightarrow> jsobject list \<Rightarrow> path \<Rightarrow> world \<Rightarrow> js_error option \<times> world" where
  "exportCSV env data filePath w =
     (case data of
        [] \<Rightarrow> (None, w)
      | first # _ \<Rightarrow> writeFile env filePath (CsvFile (objectKeys first) data) w)"

definition exportXLSX :: "env \<Rightarrow> jsobject list \<Rightarrow> path \<Rightarrow> world \<Rightarrow> js_error option \<times> world" where
  "exportXLSX env data filePath w = writeFile env filePath (XlsxFile ''Businesses'' data) w"

text \<open>
  What csv-writer makes of a header and the records, by its documentation: the
  columns are the header ids, and the cell of a record under a column is the
  record's property of that name, an absent property (\<open>None\<close>) giving the empty
  field.
\<close>

definition csvColumns :: "content \<Rightarrow> string list" where
  "csvColumns c = (case c of CsvFile header data \<Rightarrow> header | _ \<Rightarrow> [])"

definition csvRows :: "content \<Rightarrow> jsval option list list" where
  "csvRows c = (case c of CsvFile header data \<Rightarrow> map (\<lambda>r. map (getProp r) header) data | _ \<Rightarrow> [])"

text \<open>The union of the keys of a batch, each key once, in order of first appearance.\<close>

definition unionOfKeys :: "jsobject list \<Rightarrow> string list" where
  "unionOfKeys data = remdups (concat (map objectKeys data))"

text \<open>
  Modelled from the spec: \<^verbatim>\<open>XLSX.utils.json_to_sheet\<close>, of the xlsx package,
  is not among the sources. The spec derives the column set from the union of
  the keys present in the record batch and renders missing fields as empty
  cells: the columns of the sheet are the keys of the batch, each once, in
  order of first appearance, and the cell of a record under a column is the
  record's property of that name, an absent property (\<open>None\<close>) giving the
  empty cell.
\<close>

definition xlsxColumns :: "content \<Rightarrow> string list" where
  "xlsxColumns c = (case c of XlsxFile sheet data \<Rightarrow> unionOfKeys data | _ \<Rightarrow> [])"

definition xlsxRows :: "content \<Rightarrow> jsval option list list" where
  "xlsxRows c =
     (case c of XlsxFile sheet data \<Rightarrow> map (\<lambda>r. map (getProp r) (unionOfKeys data)) data | _ \<Rightarrow> [])"

text \<open>
  \<^verbatim>\<open>exportResults\<close> (lines 716-740): \<^verbatim>\<open>ensureDir\<close> stands outside the
  \<^verbatim>\<open>try\<close>, so its failure is thrown to the caller; a failure inside one
  format is caught and the next format is tried. The file name carries the
  format as configured, the \<^verbatim>\<open>switch\<close> compares it in lower case.
\<close>

definition exportFormat ::
  "env \<Rightarrow> jsobject list \<Rightarrow> path \<Rightarrow> string \<Rightarrow> world \<Rightarrow> js_error option \<times> world" where
  "exportFormat env businesses filePath format w =
     (if toLowerCase format = ''json'' then exportJSON env businesses filePath w
      else if toLowerCase format = ''csv'' then exportCSV env businesses filePath w
      else if toLowerCase format = ''xlsx'' then exportXLSX env businesses filePath w
      else (None, w))"

fun exportResults_formats ::
  "env \<Rightarrow> jsobject list \<Rightarrow> path \<Rightarrow> string \<Rightarrow> string list \<Rightarrow> world \<Rightarrow> world" where
  "exportResults_formats env businesses outputDir countryName [] w = w"
| "exportResults_formats env businesses outputDir countryName (format # rest) w =
     exportResults_formats env businesses outputDir countryName rest
       (snd (exportFormat env businesses
          (outputDir @ [replaceSpaces countryName @ ''.'' @ format]) format w))"

definition exportResults ::
  "env \<Rightarrow> config \<Rightarrow> jsobject list \<Rightarrow> string \<Rightarrow> string \<Rightarrow> string \<Rightarrow> world \<Rightarrow> js_error option \<times> world" where
  "exportResults env cfg businesses query countryCode countryName w =
     (let outputDir = [dirname cfg, ''output'', query, countryCode, ''results''] in
      case ensureDir env outputDir w of
        (Some e, w1) \<Rightarrow> (Some e, w1)
      | (None, w1) \<Rightarrow>
          (None, exportResults_formats env businesses outputDir countryName (exportFormats cfg) w1))"

subsection \<open>Per-city and per-state result files\<close>

text \<open>
  \<^verbatim>\<open>saveCityResults\<close>, \<^verbatim>\<open>saveStateResults\<close> and
  \<^verbatim>\<open>updateCumulativeResults\<close> (lines 593-640): each catches and logs its own
  failures. Spreading a cumulative file that holds an object instead of an
  array throws a TypeError, caught like the rest.
\<close>

definition saveCityResults ::
  "env \<Rightarrow> config \<Rightarrow> jsobject list \<Rightarrow> string \<Rightarrow> location \<Rightarrow> location \<Rightarrow> location \<Rightarrow> world \<Rightarrow> world" where
  "saveCityResults env cfg businesses query country state city w =
     (let cityDir = [dirname cfg, ''output'', query, iso2 country, ''cities'', iso2 state] in
      case ensureDir env cityDir w of
        (Some e, w1) \<Rightarrow> w1
      | (None, w1) \<Rightarrow>
          snd (writeFile env (cityDir @ [replaceSpaces (name city) @ ''.json'']) (RecordsJson businesses) w1))"

definition updateCumulativeResults ::
  "env \<Rightarrow> config \<Rightarrow> jsobject list \<Rightarrow> string \<Rightarrow> location \<Rightarrow> world \<Rightarrow> world" where
  "updateCumulativeResults env cfg newBusinesses query country w =
     (let filePath = [dirname cfg, ''output'', query, iso2 country, ''cumulative.json''] in
      case pathExists env filePath w of
        (Inl e, w1) \<Rightarrow> w1
      | (Inr False, w1) \<Rightarrow>
          snd (writeFile env filePath (RecordsJson (removeDuplicates ([] @ newBusinesses))) w1)
      | (Inr True, w1) \<Rightarrow>
          (case readJson env filePath w1 of
             (Inr (RecordsJson existing), w2) \<Rightarrow>
               snd (writeFile env filePath (RecordsJson (removeDuplicates (existing @ newBusinesses))) w2)
           | (_, w2) \<Rightarrow> w2))"

definition saveStateResults ::
  "env \<Rightarrow> config \<Rightarrow> jsobject list \<Rightarrow> string \<Rightarrow> location \<Rightarrow> location \<Rightarrow> world \<Rightarrow> world" where
  "saveStateResults env cfg businesses query country state w =
     (let stateDir = [dirname cfg, ''output'', query, iso2 country, ''states''] in
      case ensureDir env stateDir w of
        (Some e, w1) \<Rightarrow> w1
      | (None, w1) \<Rightarrow>
          (case writeFile env (stateDir @ [replaceSpaces (name state) @ ''.json'']) (RecordsJson businesses) w1 of
             (Some e, w2) \<Rightarrow> w2
           | (None, w2) \<Rightarrow> updateCumulativeResults env cfg businesses query country w2))"

section \<open>The fetcher\<close>

text \<open>
  What a \<^verbatim>\<open>catch\<close> clause of the fetcher may receive, as far as the
  fetcher reads it: JavaScript throws any value. \<open>Nullish\<close> is
  \<^verbatim>\<open>undefined\<close> or \<^verbatim>\<open>null\<close>; any other value is given by its
  properties. An \<^verbatim>\<open>Error\<close> has a \<^verbatim>\<open>name\<close> and a string for its
  \<^verbatim>\<open>message\<close>; a thrown string or number has neither property.
\<close>

datatype thrown = Nullish | Thrown jsobject

definition errorObject :: "js_error \<Rightarrow> thrown" where
  "errorObject e =
     (case e of JsError errorName errorMessage \<Rightarrow> Thrown [(''name'', JStr errorName), (''message'', JStr errorMessage)])"

text \<open>
  \<^verbatim>\<open>error.message\<close> and \<^verbatim>\<open>error.name\<close>: reading a property of
  \<^verbatim>\<open>undefined\<close> or \<^verbatim>\<open>null\<close> throws a TypeError, reading a property
  the value lacks yields \<^verbatim>\<open>undefined\<close>.
\<close>

definition messageOf :: "thrown \<Rightarrow> js_error + jsval option" where
  "messageOf error =
     (case error of Nullish \<Rightarrow> Inl readOfUndefined | Thrown obj \<Rightarrow> Inr (getProp obj ''message''))"

definition nameOf :: "thrown \<Rightarrow> js_error + jsval option" where
  "nameOf error =
     (case error of Nullish \<Rightarrow> Inl readOfUndefined | Thrown obj \<Rightarrow> Inr (getProp obj ''name''))"

text \<open>
  \<^verbatim>\<open>error.message.includes(part)\<close>: on a string, whether \<open>part\<close> occurs
  in it; on \<^verbatim>\<open>undefined\<close> or \<^verbatim>\<open>null\<close> the read of
  \<^verbatim>\<open>includes\<close> throws a TypeError; a number or a boolean has no such
  method, and the call throws a TypeError. (The values of a property are
  those of \<open>jsval\<close>: a message that is an array is not among them.)
\<close>

definition notAFunction :: js_error where
  "notAFunction = JsError ''TypeError'' ''error.message.includes is not a function''"

definition messageIncludes :: "jsval option \<Rightarrow> string \<Rightarrow> js_error + bool" where
  "messageIncludes message part =
     (case message of
        None \<Rightarrow> Inl readOfUndefined
      | Some JNull \<Rightarrow> Inl readOfUndefined
      | Some (JStr s) \<Rightarrow> Inr (sublist part s)
      | Some (JNum n) \<Rightarrow> Inl notAFunction
      | Some (JBool b) \<Rightarrow> Inl notAFunction)"

text \<open>
  \<^verbatim>\<open>withRetry\<close> (maps.js, lines 98-115): attempts are numbered from 1; a
  failure of the last attempt is thrown again; an earlier one is logged with
  its \<^verbatim>\<open>error.message\<close> (line 111, which throws when the value caught is
  \<^verbatim>\<open>undefined\<close> or \<^verbatim>\<open>null\<close>) and followed by a wait of
  \<^verbatim>\<open>delay * attempt\<close>; a loop that never runs returns \<^verbatim>\<open>undefined\<close>.
  The operation's outcome at each attempt is given; the result comes with the
  waits made.
\<close>

function withRetry_from ::
  "(nat \<Rightarrow> thrown + 'a) \<Rightarrow> nat \<Rightarrow> int \<Rightarrow> nat \<Rightarrow> (thrown + 'a option) \<times> int list" where
  "withRetry_from operation maxRetries delay attempt =
     (if attempt \<le> maxRetries then
        (case operation attempt of
           Inr v \<Rightarrow> (Inr (Some v), [])
         | Inl lastError \<Rightarrow>
             if attempt = maxRetries then (Inl lastError, [])
             else
               (case messageOf lastError of
                  Inl typeError \<Rightarrow> (Inl (errorObject typeError), [])
                | Inr message \<Rightarrow>
                    (let r = withRetry_from operation maxRetries delay (attempt + 1)
                     in (fst r, (delay * int attempt) # snd r))))
      else (Inr None, []))"
  by pat_completeness auto
termination
  by (relation "measure (\<lambda>(operation, maxRetries, delay, attempt). Suc maxRetries - attempt)") auto

definition withRetry ::
  "(nat \<Rightarrow> thrown + 'a) \<Rightarrow> nat \<Rightarrow> int \<Rightarrow> (thrown + 'a option) \<times> int list" where
  "withRetry operation maxRetries delay = withRetry_from operation maxRetries delay 1"

text \<open>
  What one browser session does, step by step, as far as
  \<^verbatim>\<open>searchGoogleMaps\<close> (lines 283-402) can tell: what each step throws,
  if it throws. The steps are the launch at each attempt
  (\<^verbatim>\<open>getBrowserConfig\<close> and \<^verbatim>\<open>puppeteerExtra.launch\<close>),
  \<^verbatim>\<open>browser.newPage()\<close>, the set-up of the page (lines 300-320), the
  navigation, the two waits for a selector, \<^verbatim>\<open>page.evaluate\<close> inside
  \<^verbatim>\<open>smartScroll\<close>, \<^verbatim>\<open>page.content()\<close> with the records
  \<^verbatim>\<open>extractBusinessData\<close> builds from the HTML, and the two calls of
  \<^verbatim>\<open>close\<close>.
\<close>

record session =
  launch :: "nat \<Rightarrow> thrown + unit"
  newPage :: "thrown option"
  setUpPage :: "thrown option"
  goto :: "thrown option"
  waitForFeed :: "thrown option"
  waitForAlternative :: "thrown option"
  scroll :: "thrown option"
  extracted :: "thrown + jsobject list"
  closePage :: "thrown option"
  closeBrowser :: "thrown option"

text \<open>
  \<^verbatim>\<open>smartScroll\<close> (lines 118-164) catches what \<^verbatim>\<open>page.evaluate\<close>
  throws and logs its \<^verbatim>\<open>error.message\<close>.
\<close>

definition smartScroll :: "session \<Rightarrow> thrown option" where
  "smartScroll s =
     (case scroll s of
        None \<Rightarrow> None
      | Some error \<Rightarrow>
          (case messageOf error of Inl typeError \<Rightarrow> Some (errorObject typeError) | Inr message \<Rightarrow> None))"

text \<open>
  The \<^verbatim>\<open>try\<close> block (lines 288-369). The second wait runs only when the
  first one fails. \<^verbatim>\<open>browser\<close> is assigned when \<^verbatim>\<open>withRetry\<close>
  returns, \<^verbatim>\<open>page\<close> when \<^verbatim>\<open>newPage\<close> does.
\<close>

definition browserSet :: "session \<Rightarrow> bool" where
  "browserSet s = (case fst (withRetry (launch s) 3 1000) of Inr (Some browser) \<Rightarrow> True | _ \<Rightarrow> False)"

definition pageSet :: "session \<Rightarrow> bool" where
  "pageSet s = (browserSet s \<and> newPage s = None)"

definition searchGoogleMaps_try :: "session \<Rightarrow> thrown + jsobject list" where
  "searchGoogleMaps_try s =
     (case fst (withRetry (launch s) 3 1000) of
        Inl e \<Rightarrow> Inl e
      | Inr None \<Rightarrow> Inl (errorObject readOfUndefined)
      | Inr (Some browser) \<Rightarrow>
          (case newPage s of
             Some e \<Rightarrow> Inl e
           | None \<Rightarrow>
               (case setUpPage s of
                  Some e \<Rightarrow> Inl e
                | None \<Rightarrow>
                    (case goto s of
                       Some e \<Rightarrow> Inl e
                     | None \<Rightarrow>
                         (case (case waitForFeed s of None \<Rightarrow> None | Some e \<Rightarrow> waitForAlternative s) of
                            Some e \<Rightarrow> Inl e
                          | None \<Rightarrow>
                              (case smartScroll s of
                                 Some e \<Rightarrow> Inl e
                               | None \<Rightarrow> extracted s))))))"

text \<open>
  The \<^verbatim>\<open>catch\<close> block (lines 371-386): the log line reads
  \<^verbatim>\<open>error.message\<close> (line 375); then \<^verbatim>\<open>error.name\<close> is compared
  with \<^verbatim>\<open>'TimeoutError'\<close>, and only when that fails is
  \<^verbatim>\<open>error.message.includes\<close> called, once or twice; then \<^verbatim>\<open>[]\<close> is
  returned. Each of these throws out of the block when the value caught does
  not allow it.
\<close>

definition searchGoogleMaps_catch :: "thrown \<Rightarrow> js_error + jsobject list" where
  "searchGoogleMaps_catch error =
     (case messageOf error of
        Inl typeError \<Rightarrow> Inl typeError
      | Inr message \<Rightarrow>
          (case nameOf error of
             Inl typeError \<Rightarrow> Inl typeError
           | Inr thrownName \<Rightarrow>
               if thrownName = Some (JStr ''TimeoutError'') then Inr []
               else
                 (case messageIncludes message ''net::ERR_'' of
                    Inl typeError \<Rightarrow> Inl typeError
                  | Inr True \<Rightarrow> Inr []
                  | Inr False \<Rightarrow>
                      (case messageIncludes message ''Protocol error'' of
                         Inl typeError \<Rightarrow> Inl typeError
                       | Inr found \<Rightarrow> Inr []))))"

text \<open>
  The \<^verbatim>\<open>finally\<close> block (lines 388-401) closes the page and the browser,
  those that were assigned, inside a \<^verbatim>\<open>try\<close> of its own, whose
  \<^verbatim>\<open>catch\<close> logs \<^verbatim>\<open>cleanupError.message\<close>. An error thrown by the
  \<^verbatim>\<open>finally\<close> block takes the place of whatever the function was about
  to return or throw.
\<close>

definition searchGoogleMaps_cleanup :: "session \<Rightarrow> thrown option" where
  "searchGoogleMaps_cleanup s =
     (case (if pageSet s then closePage s else None) of
        Some cleanupError \<Rightarrow> Some cleanupError
      | None \<Rightarrow> if browserSet s then closeBrowser s else None)"

definition searchGoogleMaps_finally :: "session \<Rightarrow> js_error option" where
  "searchGoogleMaps_finally s =
     (case searchGoogleMaps_cleanup s of
        None \<Rightarrow> None
      | Some cleanupError \<Rightarrow>
          (case messageOf cleanupError of Inl typeError \<Rightarrow> Some typeError | Inr message \<Rightarrow> None))"

text \<open>
  \<^verbatim>\<open>searchGoogleMaps\<close> (lines 283-402). What it throws, if it throws, is
  a TypeError raised by its own \<^verbatim>\<open>catch\<close> or \<^verbatim>\<open>finally\<close> block.
  The function is given as a fetcher: the browser session it gets may depend
  on the trace and on the arguments.
\<close>

definition searchGoogleMaps ::
  "(event list \<Rightarrow> string \<Rightarrow> string \<Rightarrow> session) \<Rightarrow> event list \<Rightarrow> string \<Rightarrow> string \<Rightarrow> js_error + jsobject list" where
  "searchGoogleMaps browser tr query country =
     (let s = browser tr query country;
          completion = (case searchGoogleMaps_try s of
                          Inl error \<Rightarrow> searchGoogleMaps_catch error
                        | Inr businesses \<Rightarrow> Inr businesses)
      in case searchGoogleMaps_finally s of
           Some typeError \<Rightarrow> Inl typeError
         | None \<Rightarrow> completion)"

section \<open>Category filter and the search with retry\<close>

text \<open>
  JavaScript truthiness of a property, and \<^verbatim>\<open>filterByCategory\<close> (lines
  644-653): calling \<^verbatim>\<open>toLowerCase\<close> on a truthy category that is not a
  string throws a TypeError out of the filter.
\<close>

fun truthy :: "jsval option \<Rightarrow> bool" where
  "truthy None = False"
| "truthy (Some (JStr s)) = (s \<noteq> [])"
| "truthy (Some (JNum s)) = (s \<noteq> ''0'' \<and> s \<noteq> ''NaN'')"
| "truthy (Some (JBool b)) = b"
| "truthy (Some JNull) = False"

definition categoryAllowed :: "string list \<Rightarrow> jsobject \<Rightarrow> js_error + bool" where
  "categoryAllowed allowedList b =
     (if \<not> truthy (getProp b ''category'') then Inr True
      else case getProp b ''category'' of
             Some (JStr c) \<Rightarrow> Inr (list_ex (\<lambda>allowed. sublist (toLowerCase allowed) (toLowerCase c)) allowedList)
           | _ \<Rightarrow> Inl (JsError ''TypeError'' ''business.category.toLowerCase is not a function''))"

fun filterByCategory_filter :: "string list \<Rightarrow> jsobject list \<Rightarrow> js_error + jsobject list" where
  "filterByCategory_filter allowedList [] = Inr []"
| "filterByCategory_filter allowedList (b # bs) =
     (case categoryAllowed allowedList b of
        Inl e \<Rightarrow> Inl e
      | Inr keep \<Rightarrow>
          (case filterByCategory_filter allowedList bs of
             Inl e \<Rightarrow> Inl e
           | Inr kept \<Rightarrow> Inr (if keep then b # kept else kept)))"

definition filterByCategory :: "config \<Rightarrow> jsobject list \<Rightarrow> js_error + jsobject list" where
  "filterByCategory cfg businesses =
     (if allowedCategories cfg = [] then Inr businesses
      else filterByCategory_filter (allowedCategories cfg) businesses)"

text \<open>
  One attempt of \<^verbatim>\<open>searchMapsWithRetry\<close> (lines 745-766): the query, the
  call of the fetcher (an array is always truthy, so line 766 is never
  reached), the provenance properties spread over each record, the filter.
\<close>

definition searchQuery :: "string \<Rightarrow> string \<Rightarrow> string \<Rightarrow> string \<Rightarrow> string" where
  "searchQuery query cityname statename countryname =
     (if cityname \<noteq> [] then query @ '' near '' @ cityname @ '' '' @ statename @ '' '' @ countryname
      else query @ '' near '' @ statename @ '' '' @ countryname)"

definition updatedBusiness ::
  "string \<Rightarrow> string \<Rightarrow> string \<Rightarrow> string \<Rightarrow> string \<Rightarrow> jsobject \<Rightarrow> jsobject" where
  "updatedBusiness query cityname statename countryname countrycode b =
     AList.update ''city'' (JStr (orElse cityname []))
       (AList.update ''state'' (JStr statename)
         (AList.update ''country'' (JStr countryname)
           (AList.update ''source_country'' (JStr countrycode)
             (AList.update ''source_query'' (JStr query)
               (AList.update ''source_name'' (JStr ''google'') b)))))"

definition attempt_try ::
  "env \<Rightarrow> config \<Rightarrow> string \<Rightarrow> string \<Rightarrow> string \<Rightarrow> string \<Rightarrow> string \<Rightarrow> world \<Rightarrow> js_error + jsobject list" where
  "attempt_try env cfg query cityname statename countryname countrycode w =
     (case fetch env (trace w) (searchQuery query cityname statename countryname) countrycode of
        Inl e \<Rightarrow> Inl e
      | Inr businesses \<Rightarrow>
          filterByCategory cfg (map (updatedBusiness query cityname statename countryname countrycode) businesses))"

text \<open>
  \<^verbatim>\<open>searchMapsWithRetry\<close> (lines 743-776), run without interleaving: attempts
  are numbered from 0 to \<^verbatim>\<open>retries\<close>; a failed attempt that is the last
  returns \<^verbatim>\<open>[]\<close>, an earlier one waits \<^verbatim>\<open>getRandomInt(1000, 3000)\<close> and
  goes on. A loop that ends without returning gives \<^verbatim>\<open>undefined\<close>, here \<open>None\<close>.
\<close>

function searchMapsWithRetry_from ::
  "env \<Rightarrow> config \<Rightarrow> string \<Rightarrow> string \<Rightarrow> string \<Rightarrow> string \<Rightarrow> string \<Rightarrow> nat \<Rightarrow> nat \<Rightarrow> world
   \<Rightarrow> jsobject list option \<times> world" where
  "searchMapsWithRetry_from env cfg query cityname statename countryname countrycode retries attempt w =
     (if attempt \<le> retries then
        (let w1 = emit (Fetch (searchQuery query cityname statename countryname) countrycode) w in
         case attempt_try env cfg query cityname statename countryname countrycode w1 of
           Inr filtered \<Rightarrow> (Some filtered, w1)
         | Inl error \<Rightarrow>
             if attempt = retries then (Some [], w1)
             else searchMapsWithRetry_from env cfg query cityname statename countryname countrycode
                    retries (attempt + 1) (emit (Sleep 1000 3000) w1))
      else (None, w))"
  by pat_completeness auto
termination
  by (relation "measure (\<lambda>(env, cfg, query, cityname, statename, countryname, countrycode, retries, attempt, w).
        Suc retries - attempt)") auto

definition searchMapsWithRetry ::
  "env \<Rightarrow> config \<Rightarrow> string \<Rightarrow> string \<Rightarrow> string \<Rightarrow> string \<Rightarrow> string \<Rightarrow> world \<Rightarrow> jsobject list option \<times> world" where
  "searchMapsWithRetry env cfg query cityname statename countryname countrycode w =
     searchMapsWithRetry_from env cfg query cityname statename countryname countrycode (retryCount cfg) 0 w"

section \<open>Cities: the pool of workers\<close>

definition cityKey :: "location \<Rightarrow> location \<Rightarrow> location \<Rightarrow> string" where
  "cityKey country state city = iso2 country @ ''-'' @ iso2 state @ ''-'' @ name city"

definition stateKey :: "location \<Rightarrow> location \<Rightarrow> string" where
  "stateKey country state = iso2 country @ ''-'' @ name state"

text \<open>
  \<^verbatim>\<open>processCitiesConcurrently\<close> (lines 792-839) starts \<^verbatim>\<open>CONFIG.parallel\<close>
  calls of \<^verbatim>\<open>processBatch\<close> that share \<^verbatim>\<open>cityIndex\<close>, \<^verbatim>\<open>results\<close> and
  the global progress tree. JavaScript runs one of them at a time and switches
  only at an \<^verbatim>\<open>await\<close>. A worker is therefore described by the
  \<^verbatim>\<open>await\<close> it is suspended at: the fetch of an attempt inside
  \<^verbatim>\<open>searchMapsWithRetry\<close>, the wait before the next attempt, the call of
  \<^verbatim>\<open>saveCityResults\<close> (its inner awaits taken as one), the pause after a
  task; or it has returned. Between the return of \<^verbatim>\<open>searchMapsWithRetry\<close>
  and the continuation of \<^verbatim>\<open>processBatch\<close> nothing shared is read or
  written, so the two are one step here.
\<close>

datatype pc =
    AwaitFetch location nat
  | AwaitBackoff location nat
  | AwaitSave location "jsobject list"
  | AwaitDelay
  | Finished

record pool =
  cityIndex :: nat
  results :: "jsobject list"
  workers :: "pc list"

text \<open>
  From the head of the \<^verbatim>\<open>while\<close> loop to the first \<^verbatim>\<open>await\<close> (lines
  798-814): take \<^verbatim>\<open>cities[cityIndex++]\<close>, go on past a null entry or a city
  whose key is marked, otherwise call \<^verbatim>\<open>searchMapsWithRetry\<close>, which calls
  the fetcher for attempt 0 at once.
\<close>

function claimNext ::
  "location option list \<Rightarrow> location \<Rightarrow> location \<Rightarrow> string \<Rightarrow> nat \<Rightarrow> world \<Rightarrow> pc \<times> nat \<times> world" where
  "claimNext cities state country localizedQuery index w =
     (if index < length cities then
        (let w1 = emit (Claim index) w in
         case cities ! index of
           None \<Rightarrow> claimNext cities state country localizedQuery (index + 1) w1
         | Some city \<Rightarrow>
             if isCityDone (progressData w1) (cityKey country state city)
             then claimNext cities state country localizedQuery (index + 1) w1
             else (AwaitFetch city 0, index + 1,
                   emit (Fetch (searchQuery localizedQuery (name city) (name state) (name country)) (iso2 country)) w1))
      else (Finished, index, w))"
  by pat_completeness auto
termination
  by (relation "measure (\<lambda>(cities, state, country, localizedQuery, index, w). length cities - index)") auto

definition nextTask ::
  "location option list \<Rightarrow> location \<Rightarrow> location \<Rightarrow> string \<Rightarrow> nat \<Rightarrow> pool \<Rightarrow> world \<Rightarrow> pool \<times> world" where
  "nextTask cities state country localizedQuery i p w =
     (case claimNext cities state country localizedQuery (cityIndex p) w of
        (next, index, w1) \<Rightarrow> (p\<lparr>cityIndex := index, workers := (workers p)[i := next]\<rparr>, w1))"

text \<open>
  After \<^verbatim>\<open>searchMapsWithRetry\<close> has returned (lines 816-829): spreading
  \<^verbatim>\<open>undefined\<close> into \<^verbatim>\<open>results.push\<close> or writing into an undefined
  \<^verbatim>\<open>completed\<close> throws, and the \<^verbatim>\<open>catch\<close> of line 830 sends the worker
  back to the loop head without the pause.
\<close>

definition afterSearch ::
  "config \<Rightarrow> location option list \<Rightarrow> location \<Rightarrow> location \<Rightarrow> string \<Rightarrow> nat \<Rightarrow> location \<Rightarrow>
   jsobject list option \<Rightarrow> pool \<Rightarrow> world \<Rightarrow> pool \<times> world" where
  "afterSearch cfg cities state country localizedQuery i city found p w =
     (case found of
        None \<Rightarrow> nextTask cities state country localizedQuery i p w
      | Some businesses \<Rightarrow>
          (let p1 = p\<lparr>results := results p @ businesses\<rparr> in
           case markCityComplete (progressData w) (cityKey country state city) of
             Inl e \<Rightarrow> nextTask cities state country localizedQuery i p1 w
           | Inr pd \<Rightarrow>
               if businesses \<noteq> []
               then (p1\<lparr>workers := (workers p1)[i := AwaitSave city businesses]\<rparr>, w\<lparr>progressData := pd\<rparr>)
               else (p1\<lparr>workers := (workers p1)[i := AwaitDelay]\<rparr>,
                     emit (Sleep (minDelay cfg) (maxDelay cfg)) (w\<lparr>progressData := pd\<rparr>))))"

text \<open>Worker \<open>i\<close> runs from the \<^verbatim>\<open>await\<close> it is suspended at to its next one.\<close>

definition resume ::
  "env \<Rightarrow> config \<Rightarrow> location option list \<Rightarrow> location \<Rightarrow> location \<Rightarrow> string \<Rightarrow> string \<Rightarrow> nat \<Rightarrow>
   pool \<times> world \<Rightarrow> pool \<times> world" where
  "resume env cfg cities state country query localizedQuery i pw =
     (case pw of (p, w) \<Rightarrow>
        if i < length (workers p) then
          (case workers p ! i of
             AwaitFetch city attempt \<Rightarrow>
               (case attempt_try env cfg localizedQuery (name city) (name state) (name country) (iso2 country) w of
                  Inr filtered \<Rightarrow> afterSearch cfg cities state country localizedQuery i city (Some filtered) p w
                | Inl error \<Rightarrow>
                    if attempt = retryCount cfg
                    then afterSearch cfg cities state country localizedQuery i city (Some []) p w
                    else (p\<lparr>workers := (workers p)[i := AwaitBackoff city attempt]\<rparr>, emit (Sleep 1000 3000) w))
           | AwaitBackoff city attempt \<Rightarrow>
               if attempt + 1 \<le> retryCount cfg
               then (p\<lparr>workers := (workers p)[i := AwaitFetch city (attempt + 1)]\<rparr>,
                     emit (Fetch (searchQuery localizedQuery (name city) (name state) (name country)) (iso2 country)) w)
               else afterSearch cfg cities state country localizedQuery i city None p w
           | AwaitSave city businesses \<Rightarrow>
               (p\<lparr>workers := (workers p)[i := AwaitDelay]\<rparr>,
                emit (Sleep (minDelay cfg) (maxDelay cfg))
                  (saveCityResults env cfg businesses query country state city w))
           | AwaitDelay \<Rightarrow> nextTask cities state country localizedQuery i p w
           | Finished \<Rightarrow> (p, w))
        else (p, w))"

text \<open>
  \<^verbatim>\<open>semaphore.map(() => processBatch())\<close>: the workers are started one after
  the other, each running to its first \<^verbatim>\<open>await\<close> before the next starts.
\<close>

fun startWorkers ::
  "nat \<Rightarrow> location option list \<Rightarrow> location \<Rightarrow> location \<Rightarrow> string \<Rightarrow> pool \<times> world \<Rightarrow> pool \<times> world" where
  "startWorkers 0 cities state country localizedQuery pw = pw"
| "startWorkers (Suc k) cities state country localizedQuery pw =
     (case pw of (p, w) \<Rightarrow>
        (case claimNext cities state country localizedQuery (cityIndex p) w of
           (next, index, w1) \<Rightarrow>
             startWorkers k cities state country localizedQuery
               (p\<lparr>cityIndex := index, workers := workers p @ [next]\<rparr>, w1)))"

text \<open>
  The workers that have not returned, and how far a pool is from the end: the
  cities not yet taken weigh more than any path of one worker through a task.
\<close>

definition active :: "pool \<Rightarrow> nat list" where
  "active p = filter (\<lambda>i. workers p ! i \<noteq> Finished) [0..<length (workers p)]"

fun rank :: "nat \<Rightarrow> pc \<Rightarrow> nat" where
  "rank R (AwaitFetch city attempt) = 2 * (R - attempt) + 4"
| "rank R (AwaitBackoff city attempt) = 2 * (R - attempt) + 3"
| "rank R (AwaitSave city businesses) = 2"
| "rank R AwaitDelay = 1"
| "rank R Finished = 0"

definition remaining :: "nat \<Rightarrow> location option list \<Rightarrow> pool \<Rightarrow> nat" where
  "remaining R cities p =
     (length cities - cityIndex p) * (2 * R + 5) + sum_list (map (rank R) (workers p))"

subsection \<open>The pool runs to its end\<close>

text \<open>
  Resuming a worker that has not returned brings the pool strictly closer to
  the end, whichever worker the scheduler picks; so the run below is a total
  function.
\<close>

declare claimNext.simps [simp del]

lemma claimNext_bounds:
  "claimNext cities state country lq index w = (next, index', w') \<Longrightarrow>
   index \<le> index' \<and>
   (next = Finished \<or> (\<exists>city. next = AwaitFetch city 0 \<and> index < index' \<and> index' \<le> length cities))"
proof (induction cities state country lq index w rule: claimNext.induct)
  case (1 cities state country lq index w)
  show ?case
  proof (cases "index < length cities")
    case False
    with "1.prems" show ?thesis by (simp add: claimNext.simps [of cities state country lq index w])
  next
    case True
    note lt = this
    show ?thesis
    proof (cases "cities ! index")
      case None
      with lt "1.prems" have
        "claimNext cities state country lq (index + 1) (emit (Claim index) w) = (next, index', w')"
        by (simp add: claimNext.simps [of cities state country lq index w] Let_def)
      from "1.IH"(1) [OF lt refl None this] show ?thesis by auto
    next
      case (Some city)
      show ?thesis
      proof (cases "isCityDone (progressData (emit (Claim index) w)) (cityKey country state city)")
        case True
        with lt Some "1.prems" have
          "claimNext cities state country lq (index + 1) (emit (Claim index) w) = (next, index', w')"
          by (simp add: claimNext.simps [of cities state country lq index w] Let_def)
        from "1.IH"(2) [OF lt refl Some True this] show ?thesis by auto
      next
        case False
        with lt Some "1.prems" show ?thesis
          by (auto simp add: claimNext.simps [of cities state country lq index w] Let_def)
      qed
    qed
  qed
qed

lemma sum_list_rank_update:
  "i < length ws \<Longrightarrow>
   sum_list (map (rank R) (ws[i := x])) + rank R (ws ! i) = sum_list (map (rank R) ws) + rank R x"
proof (induction ws arbitrary: i)
  case Nil
  then show ?case by simp
next
  case (Cons a ws)
  then show ?case by (cases i) auto
qed

lemma nextTask_decreases:
  assumes "i < length (workers p)" "0 < rank R (workers p ! i)"
  shows "remaining R cities (fst (nextTask cities state country lq i p w)) < remaining R cities p"
proof -
  obtain nxt index w1 where c: "claimNext cities state country lq (cityIndex p) w = (nxt, index, w1)"
    by (cases "claimNext cities state country lq (cityIndex p) w") auto
  from claimNext_bounds [OF c] have
    b: "cityIndex p \<le> index"
       "nxt = Finished \<or> (\<exists>city. nxt = AwaitFetch city 0 \<and> cityIndex p < index \<and> index \<le> length cities)"
    by auto
  have u: "sum_list (map (rank R) ((workers p)[i := nxt])) + rank R (workers p ! i)
      = sum_list (map (rank R) (workers p)) + rank R nxt"
    using assms(1) by (rule sum_list_rank_update)
  have r: "remaining R cities (fst (nextTask cities state country lq i p w))
      = (length cities - index) * (2 * R + 5) + sum_list (map (rank R) ((workers p)[i := nxt]))"
    by (simp add: nextTask_def c remaining_def)
  have r0: "remaining R cities p
      = (length cities - cityIndex p) * (2 * R + 5) + sum_list (map (rank R) (workers p))"
    by (simp add: remaining_def)
  from b(2) show ?thesis
  proof
    assume "nxt = Finished"
    then have "sum_list (map (rank R) ((workers p)[i := nxt])) < sum_list (map (rank R) (workers p))"
      using u assms(2) by simp
    moreover have "(length cities - index) * (2 * R + 5) \<le> (length cities - cityIndex p) * (2 * R + 5)"
      using b(1) by (simp add: diff_le_mono2)
    ultimately show ?thesis unfolding r r0 by linarith
  next
    assume "\<exists>city. nxt = AwaitFetch city 0 \<and> cityIndex p < index \<and> index \<le> length cities"
    then obtain city where n: "nxt = AwaitFetch city 0" and lt: "cityIndex p < index" "index \<le> length cities"
      by auto
    have "(length cities - index) + 1 \<le> length cities - cityIndex p" using lt by simp
    then have "((length cities - index) + 1) * (2 * R + 5) \<le> (length cities - cityIndex p) * (2 * R + 5)"
      by (rule mult_le_mono1)
    then have "(length cities - index) * (2 * R + 5) + (2 * R + 5) \<le> (length cities - cityIndex p) * (2 * R + 5)"
      by (simp add: algebra_simps)
    moreover have "sum_list (map (rank R) ((workers p)[i := nxt])) \<le> sum_list (map (rank R) (workers p)) + (2 * R + 4)"
      using u n by simp
    ultimately show ?thesis unfolding r r0 by linarith
  qed
qed

lemma remaining_set_worker:
  assumes "i < length (workers p)" "rank R x < rank R (workers p ! i)"
  shows "remaining R cities (p\<lparr>workers := (workers p)[i := x]\<rparr>) < remaining R cities p"
  using sum_list_rank_update [OF assms(1), of R x] assms(2) by (simp add: remaining_def)

lemma afterSearch_decreases:
  assumes "i < length (workers p)" "3 \<le> rank R (workers p ! i)"
  shows "remaining R cities (fst (afterSearch cfg cities state country lq i city found p w))
     < remaining R cities p"
proof (cases found)
  case None
  with nextTask_decreases [of i p R cities state country lq w] assms show ?thesis
    by (simp add: afterSearch_def)
next
  case (Some businesses)
  let ?p1 = "p\<lparr>results := results p @ businesses\<rparr>"
  have same: "remaining R cities ?p1 = remaining R cities p" by (simp add: remaining_def)
  have w1: "i < length (workers ?p1)" "3 \<le> rank R (workers ?p1 ! i)" using assms by simp_all
  show ?thesis
  proof (cases "markCityComplete (progressData w) (cityKey country state city)")
    case (Inl e)
    with Some nextTask_decreases [of i ?p1 R cities state country lq w] w1 same show ?thesis
      by (simp add: afterSearch_def Let_def)
  next
    case (Inr pd)
    have "remaining R cities (p\<lparr>workers := (workers p)[i := AwaitSave city businesses]\<rparr>)
        < remaining R cities p"
      using assms by (intro remaining_set_worker) simp_all
    moreover have "remaining R cities (p\<lparr>workers := (workers p)[i := AwaitDelay]\<rparr>)
        < remaining R cities p"
      using assms by (intro remaining_set_worker) simp_all
    ultimately show ?thesis using Some Inr by (simp add: afterSearch_def Let_def remaining_def)
  qed
qed

lemma resume_decreases:
  assumes "i < length (workers p)" "workers p ! i \<noteq> Finished"
  shows "remaining (retryCount cfg) cities (fst (resume env cfg cities state country query lq i (p, w)))
     < remaining (retryCount cfg) cities p"
proof (cases "workers p ! i")
  case (AwaitFetch city attempt)
  then have r: "3 \<le> rank (retryCount cfg) (workers p ! i)" by simp
  have b: "remaining (retryCount cfg) cities (p\<lparr>workers := (workers p)[i := AwaitBackoff city attempt]\<rparr>)
      < remaining (retryCount cfg) cities p"
    using assms(1) AwaitFetch by (intro remaining_set_worker) simp_all
  show ?thesis
    using assms(1) AwaitFetch b
      afterSearch_decreases [OF assms(1) r, of cities cfg state country lq city]
    by (simp add: resume_def split: sum.split)
next
  case (AwaitBackoff city attempt)
  then have r: "3 \<le> rank (retryCount cfg) (workers p ! i)" by simp
  have b: "attempt + 1 \<le> retryCount cfg \<Longrightarrow>
      remaining (retryCount cfg) cities (p\<lparr>workers := (workers p)[i := AwaitFetch city (attempt + 1)]\<rparr>)
      < remaining (retryCount cfg) cities p"
    using assms(1) AwaitBackoff by (intro remaining_set_worker) simp_all
  show ?thesis
    using assms(1) AwaitBackoff b
      afterSearch_decreases [OF assms(1) r, of cities cfg state country lq city]
    by (simp add: resume_def)
next
  case (AwaitSave city businesses)
  have "remaining (retryCount cfg) cities (p\<lparr>workers := (workers p)[i := AwaitDelay]\<rparr>)
      < remaining (retryCount cfg) cities p"
    using assms(1) AwaitSave by (intro remaining_set_worker) simp_all
  with assms(1) AwaitSave show ?thesis by (simp add: resume_def)
next
  case AwaitDelay
  with assms(1) nextTask_decreases [of i p "retryCount cfg" cities state country lq w] show ?thesis
    by (simp add: resume_def)
next
  case Finished
  with assms(2) show ?thesis by simp
qed

text \<open>
  Which worker resumes next: the surroundings choose one of the workers that
  have not returned.
\<close>

definition pick :: "env \<Rightarrow> pool \<times> world \<Rightarrow> nat" where
  "pick env pw =
     active (fst pw) ! (sched env (trace (snd pw)) (length (active (fst pw))) mod length (active (fst pw)))"

lemma pick_active:
  assumes "active (fst pw) \<noteq> []"
  shows "pick env pw < length (workers (fst pw)) \<and> workers (fst pw) ! pick env pw \<noteq> Finished"
proof -
  let ?n = "sched env (trace (snd pw)) (length (active (fst pw)))"
  have "?n mod length (active (fst pw)) < length (active (fst pw))" using assms by simp
  then have "active (fst pw) ! (?n mod length (active (fst pw))) \<in> set (active (fst pw))" by (rule nth_mem)
  then show ?thesis by (simp add: active_def pick_def)
qed

text \<open>
  \<^verbatim>\<open>await Promise.all(...)\<close>: as long as a worker is suspended, one of the
  suspended workers is resumed.
\<close>

function runWorkers ::
  "env \<Rightarrow> config \<Rightarrow> location option list \<Rightarrow> location \<Rightarrow> location \<Rightarrow> string \<Rightarrow> string \<Rightarrow>
   pool \<times> world \<Rightarrow> pool \<times> world" where
  "runWorkers env cfg cities state country query localizedQuery pw =
     (if active (fst pw) = [] then pw
      else runWorkers env cfg cities state country query localizedQuery
             (resume env cfg cities state country query localizedQuery (pick env pw) pw))"
  by pat_completeness auto
termination
proof (relation "measure (\<lambda>(env, cfg, cities, state, country, query, localizedQuery, pw).
          remaining (retryCount cfg) cities (fst pw))")
  show "wf (measure (\<lambda>(env, cfg, cities, state, country, query, localizedQuery, pw).
          remaining (retryCount cfg) cities (fst pw)))"
    by simp
next
  fix env :: env and cfg :: config and cities state country query localizedQuery and pw :: "pool \<times> world"
  assume a: "active (fst pw) \<noteq> []"
  obtain p w where pw: "pw = (p, w)" by (cases pw)
  from pick_active [OF a, of env] pw
  have "pick env pw < length (workers p)" and "workers p ! pick env pw \<noteq> Finished"
    by simp_all
  from resume_decreases [OF this, of cfg cities env state country query localizedQuery w]
  show "((env, cfg, cities, state, country, query, localizedQuery,
          resume env cfg cities state country query localizedQuery (pick env pw) pw),
         (env, cfg, cities, state, country, query, localizedQuery, pw))
        \<in> measure (\<lambda>(env, cfg, cities, state, country, query, localizedQuery, pw).
          remaining (retryCount cfg) cities (fst pw))"
    by (simp add: pw)
qed

text \<open>
  The pool at an instant: after the workers have been started and \<open>n\<close> times
  a worker has been resumed (fewer when all have returned before).
\<close>

fun runSteps ::
  "nat \<Rightarrow> env \<Rightarrow> config \<Rightarrow> location option list \<Rightarrow> location \<Rightarrow> location \<Rightarrow> string \<Rightarrow> string \<Rightarrow>
   pool \<times> world \<Rightarrow> pool \<times> world" where
  "runSteps 0 env cfg cities state country query localizedQuery pw = pw"
| "runSteps (Suc n) env cfg cities state country query localizedQuery pw =
     (if active (fst pw) = [] then pw
      else runSteps n env cfg cities state country query localizedQuery
             (resume env cfg cities state country query localizedQuery (pick env pw) pw))"

definition startPool ::
  "config \<Rightarrow> location option list \<Rightarrow> location \<Rightarrow> location \<Rightarrow> string \<Rightarrow> world \<Rightarrow> pool \<times> world" where
  "startPool cfg cities state country localizedQuery w =
     startWorkers (parallel cfg) cities state country localizedQuery
       (\<lparr>cityIndex = 0, results = [], workers = []\<rparr>, w)"

definition poolAt ::
  "nat \<Rightarrow> env \<Rightarrow> config \<Rightarrow> location option list \<Rightarrow> location \<Rightarrow> location \<Rightarrow> string \<Rightarrow> string \<Rightarrow> world
   \<Rightarrow> pool \<times> world" where
  "poolAt n env cfg cities state country query localizedQuery w =
     runSteps n env cfg cities state country query localizedQuery
       (startPool cfg cities state country localizedQuery w)"

text \<open>\<^verbatim>\<open>processCitiesConcurrently\<close>: start the workers, await them all, return \<^verbatim>\<open>results\<close>.\<close>

definition processCitiesConcurrently ::
  "env \<Rightarrow> config \<Rightarrow> location option list \<Rightarrow> location \<Rightarrow> location \<Rightarrow> string \<Rightarrow> string \<Rightarrow> world
   \<Rightarrow> jsobject list \<times> world" where
  "processCitiesConcurrently env cfg cities state country query localizedQuery w =
     (case runWorkers env cfg cities state country query localizedQuery
             (startPool cfg cities state country localizedQuery w) of
        (p, w') \<Rightarrow> (results p, w'))"

section \<open>States and countries\<close>

text \<open>
  Line 895, \<^verbatim>\<open>progressData.completed.cities[cityKey] = true\<close>, stands in
  \<^verbatim>\<open>processStatesConcurrently\<close>, where no \<^verbatim>\<open>cityKey\<close> is declared (the
  constant of that name is local to the loop body of \<^verbatim>\<open>processBatch\<close>):
  evaluating the key throws a ReferenceError, whatever the tree holds.
\<close>

definition markUndeclaredCityKey :: "progress \<Rightarrow> js_error + progress" where
  "markUndeclaredCityKey pd = Inl (JsError ''ReferenceError'' ''cityKey is not defined'')"

text \<open>
  The businesses of one state (lines 855-881): from the pool of workers over
  the shuffled cities, or from one search with an empty city name, whose
  \<^verbatim>\<open>businesses.length\<close> is read at once.
\<close>

definition stateBusinesses ::
  "env \<Rightarrow> config \<Rightarrow> location \<Rightarrow> location \<Rightarrow> string \<Rightarrow> string \<Rightarrow> world \<Rightarrow> (js_error + jsobject list) \<times> world" where
  "stateBusinesses env cfg state country query localizedQuery w =
     (if includeCities cfg then
        (case citiesByCountryState env (iso2 country) (iso2 state) of
           Inl e \<Rightarrow> (Inl e, w)
         | Inr citiesByState \<Rightarrow>
             (let shuffledCities = shuffle env (trace w) citiesByState in
              if length shuffledCities > 0 then
                (case processCitiesConcurrently env cfg shuffledCities state country query localizedQuery w of
                   (found, w1) \<Rightarrow> (Inr found, w1))
              else (Inr [], w)))
      else
        (case searchMapsWithRetry env cfg localizedQuery [] (name state) (name country) (iso2 country) w of
           (None, w1) \<Rightarrow> (Inl readOfUndefined, w1)
         | (Some businesses, w1) \<Rightarrow> (Inr businesses, w1)))"

text \<open>
  The rest of the loop body (lines 883-899): mark the state, save its results
  when there are any, line 895, save the progress tree, pause.
\<close>

definition processState ::
  "env \<Rightarrow> config \<Rightarrow> location \<Rightarrow> location \<Rightarrow> string \<Rightarrow> string \<Rightarrow> world \<Rightarrow> (js_error + jsobject list) \<times> world" where
  "processState env cfg state country query localizedQuery w =
     (case stateBusinesses env cfg state country query localizedQuery w of
        (Inl e, w1) \<Rightarrow> (Inl e, w1)
      | (Inr found, w1) \<Rightarrow>
          (case markStateComplete (progressData w1) (stateKey country state) of
             Inl e \<Rightarrow> (Inl e, w1)
           | Inr pd \<Rightarrow>
               (let w2 = w1\<lparr>progressData := pd\<rparr>;
                    w3 = (if found \<noteq> [] then saveStateResults env cfg found query country state w2 else w2)
                in case markUndeclaredCityKey (progressData w3) of
                     Inl e \<Rightarrow> (Inl e, w3)
                   | Inr pd' \<Rightarrow>
                       (Inr found,
                        emit (Sleep (minDelay cfg) (maxDelay cfg))
                          (saveProgress env cfg query (iso2 country) pd' (w3\<lparr>progressData := pd'\<rparr>))))))"

text \<open>
  \<^verbatim>\<open>processStatesConcurrently\<close> (lines 842-903): the \<^verbatim>\<open>for\<close> loop skips a
  null entry and a state whose key is marked; an error thrown by the body ends
  the function.
\<close>

fun processStates_loop ::
  "env \<Rightarrow> config \<Rightarrow> location option list \<Rightarrow> location \<Rightarrow> string \<Rightarrow> string \<Rightarrow> jsobject list \<Rightarrow> world
   \<Rightarrow> (js_error + jsobject list) \<times> world" where
  "processStates_loop env cfg [] country query localizedQuery found w = (Inr found, w)"
| "processStates_loop env cfg (None # rest) country query localizedQuery found w =
     processStates_loop env cfg rest country query localizedQuery found w"
| "processStates_loop env cfg (Some state # rest) country query localizedQuery found w =
     (if isStateDone (progressData w) (stateKey country state)
      then processStates_loop env cfg rest country query localizedQuery found w
      else
        (case processState env cfg state country query localizedQuery w of
           (Inl e, w1) \<Rightarrow> (Inl e, w1)
         | (Inr added, w1) \<Rightarrow>
             processStates_loop env cfg rest country query localizedQuery (found @ added) w1))"

definition processStatesConcurrently ::
  "env \<Rightarrow> config \<Rightarrow> location option list \<Rightarrow> location \<Rightarrow> string \<Rightarrow> string \<Rightarrow> world
   \<Rightarrow> (js_error + jsobject list) \<times> world" where
  "processStatesConcurrently env cfg stateList country query localizedQuery w =
     processStates_loop env cfg stateList country query localizedQuery [] w"

text \<open>\<^verbatim>\<open>translateQuery\<close> (lines 779-789): a failed translation gives the query back.\<close>

definition translateQuery :: "env \<Rightarrow> config \<Rightarrow> string \<Rightarrow> string option \<Rightarrow> string" where
  "translateQuery env cfg query targetLanguage =
     (if \<not> localize cfg \<or> targetLanguage = Some ''en'' then query
      else case translate env query targetLanguage of Inl e \<Rightarrow> query | Inr text \<Rightarrow> text)"

text \<open>
  \<^verbatim>\<open>processCountry\<close> (lines 924-982). The progress tree is loaded into the
  global; a country marked complete returns \<^verbatim>\<open>[]\<close> at once; whatever is
  thrown after that is caught, and \<^verbatim>\<open>[]\<close> returned. The first language of
  an empty list is \<^verbatim>\<open>undefined\<close>.
\<close>

definition firstLanguage :: "string list option \<Rightarrow> string option" where
  "firstLanguage languages =
     (case languages of None \<Rightarrow> Some ''en'' | Some [] \<Rightarrow> None | Some (l # ls) \<Rightarrow> Some l)"

definition processCountry_try ::
  "env \<Rightarrow> config \<Rightarrow> location \<Rightarrow> string \<Rightarrow> world \<Rightarrow> (js_error + jsobject list) \<times> world" where
  "processCountry_try env cfg country query w =
     (case countrylocalemap env (iso2 country) of
        Inl e \<Rightarrow> (Inl e, w)
      | Inr languages \<Rightarrow>
          (let language = firstLanguage languages;
               localizedQuery = translateQuery env cfg query language
           in case statesByCountry env (iso2 country) of
                Inl e \<Rightarrow> (Inl e, w)
              | Inr allStates \<Rightarrow>
                  (case processStatesConcurrently env cfg (shuffle env (trace w) allStates) country query
                          localizedQuery w of
                     (Inl e, w1) \<Rightarrow> (Inl e, w1)
                   | (Inr countryBusinesses, w1) \<Rightarrow>
                       (let uniqueBusinesses = removeDuplicates countryBusinesses in
                        case exportResults env cfg uniqueBusinesses query (iso2 country) (name country) w1 of
                          (Some e, w2) \<Rightarrow> (Inl e, w2)
                        | (None, w2) \<Rightarrow>
                            (case markCountryComplete (progressData w2) (iso2 country) of
                               Inl e \<Rightarrow> (Inl e, w2)
                             | Inr pd \<Rightarrow>
                                 (Inr uniqueBusinesses,
                                  saveProgress env cfg query (iso2 country) pd (w2\<lparr>progressData := pd\<rparr>)))))))"

definition processCountry :: "env \<Rightarrow> config \<Rightarrow> location \<Rightarrow> string \<Rightarrow> world \<Rightarrow> jsobject list \<times> world" where
  "processCountry env cfg country query w =
     (case loadProgress env cfg query (iso2 country) w of
        (pd, w0) \<Rightarrow>
          if isCountryDone pd (iso2 country) then ([], w0\<lparr>progressData := pd\<rparr>)
          else
            (case processCountry_try env cfg country query (w0\<lparr>progressData := pd\<rparr>) of
               (Inl e, w1) \<Rightarrow> ([], w1)
             | (Inr uniqueBusinesses, w1) \<Rightarrow> (uniqueBusinesses, w1)))"

section \<open>Observing a run\<close>

text \<open>
  The indices taken from the shared cursor and the calls of the fetcher, read
  off a list of events; the city whose search a worker is inside, if any;
  whether a worker is inside \<^verbatim>\<open>searchMapsWithRetry\<close>, the function that
  executes a task.
\<close>

fun claimsOf :: "event list \<Rightarrow> nat list" where
  "claimsOf [] = []"
| "claimsOf (Claim i # evs) = i # claimsOf evs"
| "claimsOf (ev # evs) = claimsOf evs"

fun fetchesOf :: "event list \<Rightarrow> (string \<times> string) list" where
  "fetchesOf [] = []"
| "fetchesOf (Fetch q c # evs) = (q, c) # fetchesOf evs"
| "fetchesOf (ev # evs) = fetchesOf evs"

fun searching :: "pc \<Rightarrow> location option" where
  "searching (AwaitFetch city attempt) = Some city"
| "searching (AwaitBackoff city attempt) = Some city"
| "searching pc = None"

definition inExecute :: "pc \<Rightarrow> bool" where
  "inExecute pc = (searching pc \<noteq> None)"

text \<open>
  Marks are only ever added: every key marked in the first tree is marked in
  the second.
\<close>

definition doneMono :: "progress \<Rightarrow> progress \<Rightarrow> bool" where
  "doneMono pd pd' =
     ((\<forall>k. isCountryDone pd k \<longrightarrow> isCountryDone pd' k) \<and>
      (\<forall>k. isStateDone pd k \<longrightarrow> isStateDone pd' k) \<and>
      (\<forall>k. isCityDone pd k \<longrightarrow> isCityDone pd' k))"

text \<open>
  A city of the list whose key is not marked in a tree, and the call of the
  fetcher that searches such a city.
\<close>

definition openCity :: "location option list \<Rightarrow> location \<Rightarrow> location \<Rightarrow> progress \<Rightarrow> location \<Rightarrow> bool" where
  "openCity cities state country pd city =
     (Some city \<in> set cities \<and> \<not> isCityDone pd (cityKey country state city))"

definition cityFetch ::
  "location option list \<Rightarrow> location \<Rightarrow> location \<Rightarrow> string \<Rightarrow> progress \<Rightarrow> string \<times> string \<Rightarrow> bool" where
  "cityFetch cities state country localizedQuery pd f =
     (\<exists>city. openCity cities state country pd city
        \<and> f = (searchQuery localizedQuery (name city) (name state) (name country), iso2 country))"

text \<open>
  The call of the fetcher for a leaf under a state: for a city of the state
  that is not marked when cities are included, for the state itself otherwise.
  The call for a leaf under a state of a list that is not marked. The call for
  a leaf of a country that remains to be done according to a tree: the states
  are those of the location service, the query is the localized one.
\<close>

definition stateFetch ::
  "env \<Rightarrow> config \<Rightarrow> location \<Rightarrow> location \<Rightarrow> string \<Rightarrow> progress \<Rightarrow> string \<times> string \<Rightarrow> bool" where
  "stateFetch env cfg state country localizedQuery pd f =
     (if includeCities cfg then
        (\<exists>citiesByState. citiesByCountryState env (iso2 country) (iso2 state) = Inr citiesByState
           \<and> cityFetch citiesByState state country localizedQuery pd f)
      else f = (searchQuery localizedQuery [] (name state) (name country), iso2 country))"

definition leafFetch ::
  "env \<Rightarrow> config \<Rightarrow> location option list \<Rightarrow> location \<Rightarrow> string \<Rightarrow> progress \<Rightarrow> string \<times> string \<Rightarrow> bool" where
  "leafFetch env cfg stateList country localizedQuery pd f =
     (\<exists>state. Some state \<in> set stateList \<and> \<not> isStateDone pd (stateKey country state)
        \<and> stateFetch env cfg state country localizedQuery pd f)"

definition remainingLeaf ::
  "env \<Rightarrow> config \<Rightarrow> progress \<Rightarrow> location \<Rightarrow> string \<Rightarrow> string \<times> string \<Rightarrow> bool" where
  "remainingLeaf env cfg pd country query f =
     (\<exists>languages allStates.
        countrylocalemap env (iso2 country) = Inr languages
        \<and> statesByCountry env (iso2 country) = Inr allStates
        \<and> leafFetch env cfg allStates country (translateQuery env cfg query (firstLanguage languages)) pd f)"

text \<open>
  An effect that adds neither a claim nor a fetch and leaves the tree alone;
  an effect all of whose fetches satisfy a condition and that only adds marks.
\<close>

definition quiet :: "world \<Rightarrow> world \<Rightarrow> bool" where
  "quiet w w' =
     (\<exists>evs. trace w' = trace w @ evs \<and> claimsOf evs = [] \<and> fetchesOf evs = []
        \<and> progressData w' = progressData w)"

definition fetchesWithin :: "(string \<times> string \<Rightarrow> bool) \<Rightarrow> world \<Rightarrow> world \<Rightarrow> bool" where
  "fetchesWithin P w w' =
     (\<exists>evs. trace w' = trace w @ evs \<and> (\<forall>f \<in> set (fetchesOf evs). P f)
        \<and> doneMono (progressData w) (progressData w'))"

text \<open>
  The invariant of the pool, relative to the world in which
  \<^verbatim>\<open>processCitiesConcurrently\<close> was called: the number of workers, the
  claims made so far (the indices below the cursor, each once, in order), the
  fetches made so far (each for a city that was not marked at the call), the
  marks (only added), and the cities the workers are searching (not marked at
  the call). A step of the pool, described in the same terms relative to the
  pool before it.
\<close>

definition poolInv ::
  "location option list \<Rightarrow> location \<Rightarrow> location \<Rightarrow> string \<Rightarrow> world \<Rightarrow> nat \<Rightarrow> pool \<times> world \<Rightarrow> bool" where
  "poolInv cities state country localizedQuery w0 k pw =
     (length (workers (fst pw)) = k \<and>
      (\<exists>evs. trace (snd pw) = trace w0 @ evs \<and> claimsOf evs = [0..<cityIndex (fst pw)]
         \<and> (\<forall>f \<in> set (fetchesOf evs). cityFetch cities state country localizedQuery (progressData w0) f)) \<and>
      doneMono (progressData w0) (progressData (snd pw)) \<and>
      (\<forall>pc \<in> set (workers (fst pw)). \<forall>city. searching pc = Some city
         \<longrightarrow> openCity cities state country (progressData w0) city))"

definition known :: "location option list \<Rightarrow> location \<Rightarrow> location \<Rightarrow> pool \<times> world \<Rightarrow> location \<Rightarrow> bool" where
  "known cities state country pw city =
     (openCity cities state country (progressData (snd pw)) city
      \<or> (\<exists>pc \<in> set (workers (fst pw)). searching pc = Some city))"

definition poolStep ::
  "location option list \<Rightarrow> location \<Rightarrow> location \<Rightarrow> string \<Rightarrow> pool \<times> world \<Rightarrow> pool \<times> world \<Rightarrow> bool" where
  "poolStep cities state country localizedQuery pw pw' =
     (cityIndex (fst pw) \<le> cityIndex (fst pw') \<and>
      (\<exists>evs. trace (snd pw') = trace (snd pw) @ evs
         \<and> claimsOf evs = [cityIndex (fst pw)..<cityIndex (fst pw')]
         \<and> (\<forall>f \<in> set (fetchesOf evs). \<exists>city. known cities state country pw city
               \<and> f = (searchQuery localizedQuery (name city) (name state) (name country), iso2 country))) \<and>
      doneMono (progressData (snd pw)) (progressData (snd pw')) \<and>
      (\<forall>pc \<in> set (workers (fst pw')). \<forall>city. searching pc = Some city \<longrightarrow> known cities state country pw city))"

section \<open>A scenario\<close>

text \<open>
  The country MK with the two states Bitola and Ohrid, three cities and a null
  entry under each state; the fetcher times out on every search that names
  Bitola and finds two shops otherwise; no file-system call fails; the
  scheduler always resumes the first suspended worker; the shuffle leaves the
  order as it is.
\<close>

definition macedonia :: location where
  "macedonia = \<lparr>name = ''Macedonia'', iso2 = ''MK''\<rparr>"

definition bitola :: location where
  "bitola = \<lparr>name = ''Bitola'', iso2 = ''01''\<rparr>"

definition ohrid :: location where
  "ohrid = \<lparr>name = ''Ohrid'', iso2 = ''02''\<rparr>"

definition timeoutError :: js_error where
  "timeoutError = JsError ''TimeoutError'' ''Navigation timeout of 90000 ms exceeded''"

definition twoShops :: "jsobject list" where
  "twoShops =
     [[(''name'', JStr ''Agro''), (''formatted_address'', JStr ''1 Main St''), (''phone_number'', JStr '''')],
      [(''name'', JStr ''Hidro''), (''formatted_address'', JStr ''2 Lake Rd''), (''phone_number'', JStr '''')]]"

definition scenarioFetch :: "event list \<Rightarrow> string \<Rightarrow> string \<Rightarrow> js_error + jsobject list" where
  "scenarioFetch tr q c = (if sublist ''Bitola'' q then Inl timeoutError else Inr twoShops)"

definition threeCities :: "location option list" where
  "threeCities = [Some \<lparr>name = ''X'', iso2 = ''''\<rparr>, None, Some \<lparr>name = ''Y'', iso2 = ''''\<rparr>,
     Some \<lparr>name = ''Z'', iso2 = ''''\<rparr>]"

definition scenarioEnv :: env where
  "scenarioEnv =
     \<lparr>fetch = scenarioFetch, fsError = (\<lambda>tr. None), sched = (\<lambda>tr n. 0), shuffle = (\<lambda>tr xs. xs),
      statesByCountry = (\<lambda>c. Inr [Some bitola, Some ohrid]),
      citiesByCountryState = (\<lambda>c s. Inr threeCities),
      countrylocalemap = (\<lambda>c. Inr None),
      translate = (\<lambda>q l. Inr q)\<rparr>"

definition scenarioConfig :: config where
  "scenarioConfig =
     \<lparr>includeCities = False, localize = False, parallel = 2, minDelay = 10, maxDelay = 100,
      retryCount = 1, exportFormats = [''json''], allowedCategories = [], dirname = ''/app''\<rparr>"

definition freshWorld :: world where
  "freshWorld = \<lparr>progressData = \<lparr>completed = None\<rparr>, files = Map.empty, trace = []\<rparr>"

text \<open>
  Two worlds of a later run: \<^verbatim>\<open>progress.json\<close> marks the country MK
  complete; \<^verbatim>\<open>progress.json\<close> marks the state Bitola complete.
\<close>

definition completedWorld :: world where
  "completedWorld = freshWorld\<lparr>files :=
     [[''/app'', ''output'', ''pumps'', ''MK'', ''progress.json''] \<mapsto>
        ProgressJson \<lparr>completed = Some \<lparr>completedCountries = Some [''MK'' \<mapsto> True],
          completedStates = Some Map.empty, completedCities = Some Map.empty\<rparr>\<rparr>]\<rparr>"

definition resumedWorld :: world where
  "resumedWorld = freshWorld\<lparr>files :=
     [[''/app'', ''output'', ''pumps'', ''MK'', ''progress.json''] \<mapsto>
        ProgressJson \<lparr>completed = Some \<lparr>completedCountries = Some Map.empty,
          completedStates = Some [''MK-Bitola'' \<mapsto> True], completedCities = Some Map.empty\<rparr>\<rparr>]\<rparr>"

text \<open>
  A third state, and an environment in which the country has the three states
  and every search finds the two shops.
\<close>

definition skopje :: location where
  "skopje = \<lparr>name = ''Skopje'', iso2 = ''03''\<rparr>"

definition threeStatesEnv :: env where
  "threeStatesEnv = scenarioEnv\<lparr>fetch := (\<lambda>tr q c. Inr twoShops),
     statesByCountry := (\<lambda>c. Inr [Some bitola, Some ohrid, Some skopje])\<rparr>"

text \<open>
  A browser that cannot be launched, every attempt timing out; a browser whose
  launch is rejected, at every attempt, with a value that has neither a name
  nor a message (a thrown string, say); and the events of a search whose every
  attempt fails: the first call of the fetcher, then a wait and a call for each
  retry.
\<close>

definition brokenBrowser :: "event list \<Rightarrow> string \<Rightarrow> string \<Rightarrow> session" where
  "brokenBrowser tr q c =
     \<lparr>launch = (\<lambda>attempt. Inl (errorObject timeoutError)), newPage = None, setUpPage = None,
      goto = None, waitForFeed = None, waitForAlternative = None, scroll = None,
      extracted = Inr twoShops, closePage = None, closeBrowser = None\<rparr>"

definition rejectingBrowser :: "event list \<Rightarrow> string \<Rightarrow> string \<Rightarrow> session" where
  "rejectingBrowser tr q c =
     \<lparr>launch = (\<lambda>attempt. Inl (Thrown [])), newPage = None, setUpPage = None,
      goto = None, waitForFeed = None, waitForAlternative = None, scroll = None,
      extracted = Inr twoShops, closePage = None, closeBrowser = None\<rparr>"

definition attemptsTrace :: "string \<Rightarrow> string \<Rightarrow> nat \<Rightarrow> event list" where
  "attemptsTrace q c retries = Fetch q c # concat (replicate retries [Sleep 1000 3000, Fetch q c])"

text \<open>The paths written to, in order.\<close>

fun writtenPaths :: "event list \<Rightarrow> path list" where
  "writtenPaths [] = []"
| "writtenPaths (WriteFile p c # evs) = p # writtenPaths evs"
| "writtenPaths (ev # evs) = writtenPaths evs"

section \<open>Properties of deduplication\<close>

lemma removeDuplicates_filter_append:
  "removeDuplicates_filter seen (xs @ ys) =
     removeDuplicates_filter seen xs @ removeDuplicates_filter (seen \<union> dedupKey ` set xs) ys"
proof (induction xs arbitrary: seen)
  case Nil
  show ?case by simp
next
  case (Cons x xs)
  show ?case
  proof (cases "dedupKey x \<in> seen")
    case True
    then have "seen \<union> dedupKey ` set (x # xs) = seen \<union> dedupKey ` set xs" by auto
    with True Cons.IH [of seen] show ?thesis by (simp add: Let_def)
  next
    case False
    have "insert (dedupKey x) seen \<union> dedupKey ` set xs = seen \<union> dedupKey ` set (x # xs)" by auto
    with False Cons.IH [of "insert (dedupKey x) seen"] show ?thesis by (simp add: Let_def)
  qed
qed

lemma removeDuplicates_filter_all_seen:
  "dedupKey ` set xs \<subseteq> seen \<Longrightarrow> removeDuplicates_filter seen xs = []"
  by (induction xs) (auto simp: Let_def)

lemma removeDuplicates_filter_subseq: "subseq (removeDuplicates_filter seen xs) xs"
  by (induction xs arbitrary: seen) (auto simp: Let_def)

lemma removeDuplicates_filter_keys:
  "dedupKey ` set (removeDuplicates_filter seen xs) = dedupKey ` set xs - seen"
  by (induction xs arbitrary: seen) (auto simp: Let_def)

lemma removeDuplicates_filter_distinct:
  "distinct (map dedupKey (removeDuplicates_filter seen xs))"
proof (induction xs arbitrary: seen)
  case Nil
  show ?case by simp
next
  case (Cons x xs)
  have "dedupKey x \<notin> dedupKey ` set (removeDuplicates_filter (insert (dedupKey x) seen) xs)"
    by (simp add: removeDuplicates_filter_keys)
  with Cons.IH show ?case by (simp add: Let_def)
qed

lemma removeDuplicates_filter_first:
  "x \<in> set (removeDuplicates_filter seen xs) \<Longrightarrow>
   find (\<lambda>y. dedupKey y = dedupKey x) xs = Some x"
proof (induction xs arbitrary: seen)
  case Nil
  then show ?case by simp
next
  case (Cons a xs)
  show ?case
  proof (cases "dedupKey a \<in> seen")
    case True
    with Cons.prems have mem: "x \<in> set (removeDuplicates_filter seen xs)" by (simp add: Let_def)
    then have "dedupKey x \<in> dedupKey ` set xs - seen"
      using removeDuplicates_filter_keys [of seen xs] by blast
    with True have "dedupKey a \<noteq> dedupKey x" by auto
    with Cons.IH [OF mem] show ?thesis by simp
  next
    case False
    with Cons.prems have
      "x = a \<or> x \<in> set (removeDuplicates_filter (insert (dedupKey a) seen) xs)"
      by (simp add: Let_def)
    then show ?thesis
    proof
      assume "x = a"
      then show ?thesis by simp
    next
      assume mem: "x \<in> set (removeDuplicates_filter (insert (dedupKey a) seen) xs)"
      then have "dedupKey x \<in> dedupKey ` set xs - insert (dedupKey a) seen"
        using removeDuplicates_filter_keys [of "insert (dedupKey a) seen" xs] by blast
      then have "dedupKey a \<noteq> dedupKey x" by auto
      with Cons.IH [OF mem] show ?thesis by simp
    qed
  qed
qed

text \<open>
  C3. The claim: the identity key of a record is the triple (name,
  formattedAddress, phoneNumber), and two records are duplicates exactly when
  these three fields agree. The code reads \<^verbatim>\<open>business.address\<close> and
  \<^verbatim>\<open>business.phone\<close>, properties that no record built by
  \<^verbatim>\<open>extractBusinessData\<close> has: two records of that shape with one name and
  different addresses and phone numbers have different identity keys, and yet
  the second is dropped as a duplicate of the first.
\<close>

theorem removeDuplicates_ignores_address_and_phone:
  "spec_identityKey (business ''ChI1'' ''Acme'' ''Pumps'' ''1 Main St'' ''+38970111111'' ''/maps/place/a'' None '''' JNull JNull '''' '''' ''t'')
     \<noteq> spec_identityKey (business ''ChI2'' ''Acme'' ''Pumps'' ''9 Lake Rd'' ''+38970222222'' ''/maps/place/b'' None '''' JNull JNull '''' '''' ''t'')
   \<and> removeDuplicates
       [business ''ChI1'' ''Acme'' ''Pumps'' ''1 Main St'' ''+38970111111'' ''/maps/place/a'' None '''' JNull JNull '''' '''' ''t'',
        business ''ChI2'' ''Acme'' ''Pumps'' ''9 Lake Rd'' ''+38970222222'' ''/maps/place/b'' None '''' JNull JNull '''' '''' ''t'']
     = [business ''ChI1'' ''Acme'' ''Pumps'' ''1 Main St'' ''+38970111111'' ''/maps/place/a'' None '''' JNull JNull '''' '''' ''t'']
   \<and> dedupKey (business ''ChI2'' ''Acme'' ''Pumps'' ''9 Lake Rd'' ''+38970222222'' ''/maps/place/b'' None '''' JNull JNull '''' '''' ''t'')
     = ''Acme-undefined-undefined''"
  by (simp add: removeDuplicates_def dedupKey_def spec_identityKey_def fieldOrEmpty_def
      business_def getProp_def orElse_def startsWith_def)

text \<open>
  C7. Deduplicating a batch concatenated with itself gives the same list as
  deduplicating the batch once; the result is a subsequence of the input (the
  relative order is kept), its keys are pairwise different, every key of the
  input occurs in it, and each record kept is the first record of the input
  with its key.
\<close>

theorem removeDuplicates_idempotent_first_occurrences:
  "removeDuplicates (R @ R) = removeDuplicates R
   \<and> removeDuplicates (R @ []) = removeDuplicates R
   \<and> subseq (removeDuplicates R) R
   \<and> distinct (map dedupKey (removeDuplicates R))
   \<and> dedupKey ` set (removeDuplicates R) = dedupKey ` set R
   \<and> (\<forall>x \<in> set (removeDuplicates R). find (\<lambda>y. dedupKey y = dedupKey x) R = Some x)"
proof -
  have "removeDuplicates (R @ R) = removeDuplicates R"
    unfolding removeDuplicates_def
    by (simp add: removeDuplicates_filter_append removeDuplicates_filter_all_seen)
  moreover have "subseq (removeDuplicates R) R"
    unfolding removeDuplicates_def by (rule removeDuplicates_filter_subseq)
  moreover have "distinct (map dedupKey (removeDuplicates R))"
    unfolding removeDuplicates_def by (rule removeDuplicates_filter_distinct)
  moreover have "dedupKey ` set (removeDuplicates R) = dedupKey ` set R"
    unfolding removeDuplicates_def by (simp add: removeDuplicates_filter_keys)
  moreover have "\<forall>x \<in> set (removeDuplicates R). find (\<lambda>y. dedupKey y = dedupKey x) R = Some x"
    unfolding removeDuplicates_def by (blast intro: removeDuplicates_filter_first)
  ultimately show ?thesis by simp
qed

theorem removeDuplicates_idempotent_first_occurrences_witness:
  "removeDuplicates ([[(''name'', JStr ''a'')], [(''name'', JStr ''b'')], [(''name'', JStr ''a''), (''k'', JNull)]]
      @ [[(''name'', JStr ''a'')], [(''name'', JStr ''b'')], [(''name'', JStr ''a''), (''k'', JNull)]])
     = [[(''name'', JStr ''a'')], [(''name'', JStr ''b'')]]
   \<and> find (\<lambda>y. dedupKey y = dedupKey [(''name'', JStr ''a'')])
        [[(''name'', JStr ''a'')], [(''name'', JStr ''b'')], [(''name'', JStr ''a''), (''k'', JNull)]]
     = Some [(''name'', JStr ''a'')]"
proof -
  have e: "removeDuplicates [[(''name'', JStr ''a'')], [(''name'', JStr ''b'')], [(''name'', JStr ''a''), (''k'', JNull)]]
      = [[(''name'', JStr ''a'')], [(''name'', JStr ''b'')]]"
    by (simp add: removeDuplicates_def dedupKey_def getProp_def)
  show ?thesis
    using removeDuplicates_idempotent_first_occurrences
      [of "[[(''name'', JStr ''a'')], [(''name'', JStr ''b'')], [(''name'', JStr ''a''), (''k'', JNull)]]"]
    by (simp only: e) simp
qed


section \<open>The search with retry\<close>

declare searchMapsWithRetry_from.simps [simp del]
declare withRetry_from.simps [simp del]
declare runWorkers.simps [simp del]

lemmas fs_defs = emit_def ensureDir_def writeFile_def pathExists_def readJson_def

lemma attempt_try_fails:
  assumes "\<forall>tr. \<exists>e. fetch env tr (searchQuery query cityname statename countryname) countrycode = Inl e"
  shows "\<exists>e. attempt_try env cfg query cityname statename countryname countrycode w = Inl e"
proof -
  from assms obtain e where
    "fetch env (trace w) (searchQuery query cityname statename countryname) countrycode = Inl e"
    by blast
  then show ?thesis by (simp add: attempt_try_def)
qed

lemma searchMapsWithRetry_from_exhausted:
  assumes fail: "\<forall>tr. \<exists>e. fetch env tr (searchQuery query cityname statename countryname) countrycode = Inl e"
  shows "attempt \<le> retries \<Longrightarrow>
     searchMapsWithRetry_from env cfg query cityname statename countryname countrycode retries attempt w =
       (Some [], w\<lparr>trace := trace w @
          attemptsTrace (searchQuery query cityname statename countryname) countrycode (retries - attempt)\<rparr>)"
proof (induction "retries - attempt" arbitrary: attempt w)
  case 0
  then have eq: "attempt = retries" by simp
  from attempt_try_fails [OF fail] obtain e where
    "attempt_try env cfg query cityname statename countryname countrycode
       (emit (Fetch (searchQuery query cityname statename countryname) countrycode) w) = Inl e"
    by blast
  then show ?case
    by (subst searchMapsWithRetry_from.simps) (simp add: eq attemptsTrace_def emit_def)
next
  case (Suc n)
  then have lt: "attempt < retries" and n: "n = retries - (attempt + 1)" by simp_all
  from attempt_try_fails [OF fail] obtain e where
    "attempt_try env cfg query cityname statename countryname countrycode
       (emit (Fetch (searchQuery query cityname statename countryname) countrycode) w) = Inl e"
    by blast
  moreover have "Suc (retries - Suc attempt) = retries - attempt" using lt by simp
  then have "replicate (retries - attempt) [Sleep 1000 3000, Fetch (searchQuery query cityname statename countryname) countrycode]
     = [Sleep 1000 3000, Fetch (searchQuery query cityname statename countryname) countrycode]
       # replicate (retries - Suc attempt) [Sleep 1000 3000, Fetch (searchQuery query cityname statename countryname) countrycode]"
    by (metis replicate_Suc)
  ultimately show ?case
    using lt Suc.hyps(1) [OF n]
    by (subst searchMapsWithRetry_from.simps) (simp add: attemptsTrace_def emit_def)
qed

text \<open>
  C4, as the code has it. When the fetcher fails at every attempt,
  \<^verbatim>\<open>searchMapsWithRetry\<close> makes \<^verbatim>\<open>retries + 1\<close> attempts, waits
  \<^verbatim>\<open>getRandomInt(1000, 3000)\<close> before each retry, and then returns the empty
  list: the last error is logged, not thrown. With no retries there is exactly
  one attempt and no wait.
\<close>

theorem searchMapsWithRetry_returns_empty_after_last_failure:
  assumes "\<forall>tr. \<exists>e. fetch env tr (searchQuery query cityname statename countryname) countrycode = Inl e"
  shows "searchMapsWithRetry env cfg query cityname statename countryname countrycode w =
       (Some [], w\<lparr>trace := trace w @
          attemptsTrace (searchQuery query cityname statename countryname) countrycode (retryCount cfg)\<rparr>)
     \<and> attemptsTrace (searchQuery query cityname statename countryname) countrycode 0
       = [Fetch (searchQuery query cityname statename countryname) countrycode]"
  using searchMapsWithRetry_from_exhausted [OF assms, of 0 "retryCount cfg" cfg w]
  by (simp add: searchMapsWithRetry_def attemptsTrace_def)

lemma bitola_fetch_fails:
  "\<forall>tr. \<exists>e. fetch scenarioEnv tr (searchQuery ''pumps'' [] ''Bitola'' ''Macedonia'') ''MK'' = Inl e"
  by (simp add: scenarioEnv_def scenarioFetch_def searchQuery_def sublist_code prefix_code)

theorem searchMapsWithRetry_returns_empty_after_last_failure_witness:
  "searchMapsWithRetry scenarioEnv (scenarioConfig\<lparr>retryCount := 0\<rparr>) ''pumps'' [] ''Bitola'' ''Macedonia'' ''MK'' freshWorld
     = (Some [], freshWorld\<lparr>trace := [Fetch ''pumps near Bitola Macedonia'' ''MK'']\<rparr>)"
  using searchMapsWithRetry_returns_empty_after_last_failure
    [OF bitola_fetch_fails, of "scenarioConfig\<lparr>retryCount := 0\<rparr>" freshWorld]
  by (simp add: scenarioConfig_def freshWorld_def attemptsTrace_def searchQuery_def)

text \<open>
  C4, as the claim states it, fails: with one retry and a fetcher that always
  times out, the caller gets the value \<^verbatim>\<open>[]\<close> and no error, and the wait
  before the retry is \<^verbatim>\<open>getRandomInt(1000, 3000)\<close>, not a base delay times the
  attempt number.
\<close>

theorem searchMapsWithRetry_swallows_and_waits_randomly:
  "fst (searchMapsWithRetry scenarioEnv scenarioConfig ''pumps'' [] ''Bitola'' ''Macedonia'' ''MK'' freshWorld) = Some []
   \<and> trace (snd (searchMapsWithRetry scenarioEnv scenarioConfig ''pumps'' [] ''Bitola'' ''Macedonia'' ''MK'' freshWorld))
     = [Fetch ''pumps near Bitola Macedonia'' ''MK'', Sleep 1000 3000, Fetch ''pumps near Bitola Macedonia'' ''MK'']"
  by (simp add: searchMapsWithRetry_def searchMapsWithRetry_from.simps attempt_try_def
      scenarioEnv_def scenarioConfig_def scenarioFetch_def freshWorld_def searchQuery_def emit_def
      sublist_code prefix_code)


section \<open>Saving the progress tree\<close>

text \<open>
  C6, as the claim states it, fails: the file-system calls of one
  \<^verbatim>\<open>saveProgress\<close> are an \<^verbatim>\<open>ensureDir\<close> and a write whose path is
  \<^verbatim>\<open>progress.json\<close> itself. Nothing is written to a temporary path and
  nothing is renamed.
\<close>

theorem saveProgress_writes_target_directly:
  "trace (saveProgress scenarioEnv scenarioConfig ''pumps'' ''MK'' emptyProgress freshWorld)
     = [EnsureDir [''/app'', ''output'', ''pumps'', ''MK''],
        WriteFile [''/app'', ''output'', ''pumps'', ''MK'', ''progress.json''] (ProgressJson emptyProgress)]"
  by (simp add: saveProgress_def progressPath_def fs_defs scenarioEnv_def scenarioConfig_def freshWorld_def)

text \<open>
  C6, as the code has it. \<^verbatim>\<open>saveProgress\<close> calls \<^verbatim>\<open>ensureDir\<close> on
  \<^verbatim>\<open>output/{query}/{country}\<close> and, when that succeeds, writes the tree
  with one \<^verbatim>\<open>writeJson\<close> on \<^verbatim>\<open>output/{query}/{country}/progress.json\<close>;
  the file holds the tree when neither call fails and is left alone otherwise,
  and the tree in memory is not touched.
\<close>

theorem saveProgress_in_place:
  "trace (saveProgress env cfg query countryCode pd w)
     = trace w @ EnsureDir [dirname cfg, ''output'', query, countryCode]
         # (if fsError env (trace w @ [EnsureDir [dirname cfg, ''output'', query, countryCode]]) = None
            then [WriteFile [dirname cfg, ''output'', query, countryCode, ''progress.json''] (ProgressJson pd)]
            else [])
   \<and> files (saveProgress env cfg query countryCode pd w)
     = (if fsError env (trace w @ [EnsureDir [dirname cfg, ''output'', query, countryCode]]) = None
          \<and> fsError env (trace w @ [EnsureDir [dirname cfg, ''output'', query, countryCode],
                WriteFile [dirname cfg, ''output'', query, countryCode, ''progress.json''] (ProgressJson pd)]) = None
        then (files w)([dirname cfg, ''output'', query, countryCode, ''progress.json''] \<mapsto> ProgressJson pd)
        else files w)
   \<and> progressData (saveProgress env cfg query countryCode pd w) = progressData w"
  by (simp add: saveProgress_def progressPath_def fs_defs Let_def split: option.split)

section \<open>The columns of an export\<close>

text \<open>
  C9, as the claim states it, fails for CSV: of a batch whose second record
  has a key the first one lacks, the CSV file gets the first record's key as
  its only column, while the union of the keys has two. The sheet of the XLSX
  file of the same batch has both.
\<close>

theorem exportCSV_drops_keys_of_later_records:
  "files (snd (exportCSV scenarioEnv
       [[(''name'', JStr ''Agro'')], [(''name'', JStr ''Hidro''), (''website_url'', JStr ''hidro.mk'')]]
       [''/app'', ''out.csv''] freshWorld)) [''/app'', ''out.csv'']
     = Some (CsvFile [''name'']
         [[(''name'', JStr ''Agro'')], [(''name'', JStr ''Hidro''), (''website_url'', JStr ''hidro.mk'')]])
   \<and> csvColumns (CsvFile [''name'']
         [[(''name'', JStr ''Agro'')], [(''name'', JStr ''Hidro''), (''website_url'', JStr ''hidro.mk'')]])
     = [''name'']
   \<and> unionOfKeys [[(''name'', JStr ''Agro'')], [(''name'', JStr ''Hidro''), (''website_url'', JStr ''hidro.mk'')]]
     = [''name'', ''website_url'']"
  by (simp add: exportCSV_def objectKeys_def unionOfKeys_def csvColumns_def fs_defs scenarioEnv_def freshWorld_def)

lemma getProp_missing: "k \<notin> set (objectKeys r) \<Longrightarrow> getProp r k = None"
  by (simp add: getProp_def objectKeys_def map_of_eq_None_iff)

lemma unionOfKeys_set: "set (unionOfKeys data) = (\<Union>r \<in> set data. set (objectKeys r))"
  by (simp add: unionOfKeys_def)

lemma unionOfKeys_distinct: "distinct (unionOfKeys data)"
  by (simp add: unionOfKeys_def)

lemma unionOfKeys_uniform:
  assumes "\<forall>r \<in> set rest. set (objectKeys r) \<subseteq> set (objectKeys first)"
  shows "set (unionOfKeys (first # rest)) = set (objectKeys first)"
  using assms by (auto simp: unionOfKeys_def)

text \<open>
  C9, as the code has it. For a non-empty batch and no file-system failure:
  the sheet \<^verbatim>\<open>Businesses\<close> of the XLSX file holds the whole batch, its
  column set is the union of the keys present across all records of the batch,
  each key once, and the cell of a record under a column is its property of
  that name; the CSV file's columns are the keys of the first record of the
  batch, in its order, so they lie within the union of the keys and are all of
  it when no later record has a key the first one lacks, and the cell of a
  record under a column is its property of that name; in both files a record
  that lacks the key of a column has the empty cell there.
\<close>

theorem export_columns_xlsx_union_csv_first_record:
  assumes "fsError env (trace w @ [WriteFile csvPath (CsvFile (objectKeys first) (first # rest))]) = None"
      and "fsError env (trace w @ [WriteFile xlsxPath (XlsxFile ''Businesses'' (first # rest))]) = None"
  shows "files (snd (exportXLSX env (first # rest) xlsxPath w)) xlsxPath
       = Some (XlsxFile ''Businesses'' (first # rest))
     \<and> set (xlsxColumns (XlsxFile ''Businesses'' (first # rest)))
       = (\<Union>r \<in> set (first # rest). set (objectKeys r))
     \<and> distinct (xlsxColumns (XlsxFile ''Businesses'' (first # rest)))
     \<and> xlsxRows (XlsxFile ''Businesses'' (first # rest))
       = map (\<lambda>r. map (getProp r) (xlsxColumns (XlsxFile ''Businesses'' (first # rest)))) (first # rest)
     \<and> files (snd (exportCSV env (first # rest) csvPath w)) csvPath
       = Some (CsvFile (objectKeys first) (first # rest))
     \<and> csvColumns (CsvFile (objectKeys first) (first # rest)) = objectKeys first
     \<and> set (csvColumns (CsvFile (objectKeys first) (first # rest)))
       \<subseteq> (\<Union>r \<in> set (first # rest). set (objectKeys r))
     \<and> ((\<forall>r \<in> set rest. set (objectKeys r) \<subseteq> set (objectKeys first))
          \<longrightarrow> set (csvColumns (CsvFile (objectKeys first) (first # rest)))
              = (\<Union>r \<in> set (first # rest). set (objectKeys r)))
     \<and> csvRows (CsvFile (objectKeys first) (first # rest))
       = map (\<lambda>r. map (getProp r) (objectKeys first)) (first # rest)
     \<and> (\<forall>r k. k \<notin> set (objectKeys r) \<longrightarrow> getProp r k = None)"
proof -
  have x1: "files (snd (exportXLSX env (first # rest) xlsxPath w)) xlsxPath
       = Some (XlsxFile ''Businesses'' (first # rest))"
    using assms(2) by (simp add: exportXLSX_def fs_defs)
  have x2: "set (xlsxColumns (XlsxFile ''Businesses'' (first # rest)))
       = (\<Union>r \<in> set (first # rest). set (objectKeys r))"
    by (simp add: xlsxColumns_def unionOfKeys_set)
  have x3: "distinct (xlsxColumns (XlsxFile ''Businesses'' (first # rest)))"
    by (simp add: xlsxColumns_def unionOfKeys_distinct)
  have x4: "xlsxRows (XlsxFile ''Businesses'' (first # rest))
       = map (\<lambda>r. map (getProp r) (xlsxColumns (XlsxFile ''Businesses'' (first # rest)))) (first # rest)"
    by (simp add: xlsxRows_def xlsxColumns_def)
  have c1: "files (snd (exportCSV env (first # rest) csvPath w)) csvPath
       = Some (CsvFile (objectKeys first) (first # rest))"
    using assms(1) by (simp add: exportCSV_def fs_defs)
  have c2: "csvColumns (CsvFile (objectKeys first) (first # rest)) = objectKeys first"
    by (simp add: csvColumns_def)
  have c3: "set (csvColumns (CsvFile (objectKeys first) (first # rest)))
       \<subseteq> (\<Union>r \<in> set (first # rest). set (objectKeys r))"
    by (simp add: csvColumns_def)
  have c4: "(\<forall>r \<in> set rest. set (objectKeys r) \<subseteq> set (objectKeys first))
          \<longrightarrow> set (csvColumns (CsvFile (objectKeys first) (first # rest)))
              = (\<Union>r \<in> set (first # rest). set (objectKeys r))"
    using unionOfKeys_uniform [of rest first] by (simp add: csvColumns_def unionOfKeys_set)
  have c5: "csvRows (CsvFile (objectKeys first) (first # rest))
       = map (\<lambda>r. map (getProp r) (objectKeys first)) (first # rest)"
    by (simp add: csvRows_def)
  have m: "\<forall>r k. k \<notin> set (objectKeys r) \<longrightarrow> getProp r k = None"
    by (simp add: getProp_missing)
  from x1 x2 x3 x4 c1 c2 c3 c4 c5 m show ?thesis by blast
qed

theorem export_columns_xlsx_union_csv_first_record_witness:
  "files (snd (exportXLSX scenarioEnv
       [[(''name'', JStr ''Agro'')], [(''name'', JStr ''Hidro''), (''website_url'', JStr ''hidro.mk'')]]
       [''/app'', ''out.xlsx''] freshWorld)) [''/app'', ''out.xlsx'']
     = Some (XlsxFile ''Businesses''
         [[(''name'', JStr ''Agro'')], [(''name'', JStr ''Hidro''), (''website_url'', JStr ''hidro.mk'')]])
   \<and> xlsxColumns (XlsxFile ''Businesses''
         [[(''name'', JStr ''Agro'')], [(''name'', JStr ''Hidro''), (''website_url'', JStr ''hidro.mk'')]])
     = [''name'', ''website_url'']
   \<and> xlsxRows (XlsxFile ''Businesses''
         [[(''name'', JStr ''Agro'')], [(''name'', JStr ''Hidro''), (''website_url'', JStr ''hidro.mk'')]])
     = [[Some (JStr ''Agro''), None], [Some (JStr ''Hidro''), Some (JStr ''hidro.mk'')]]
   \<and> files (snd (exportCSV scenarioEnv
       [[(''name'', JStr ''Agro'')], [(''name'', JStr ''Hidro''), (''website_url'', JStr ''hidro.mk'')]]
       [''/app'', ''out.csv''] freshWorld)) [''/app'', ''out.csv'']
     = Some (CsvFile [''name'']
         [[(''name'', JStr ''Agro'')], [(''name'', JStr ''Hidro''), (''website_url'', JStr ''hidro.mk'')]])
   \<and> csvRows (CsvFile [''name'']
         [[(''name'', JStr ''Agro'')], [(''name'', JStr ''Hidro''), (''website_url'', JStr ''hidro.mk'')]])
     = [[Some (JStr ''Agro'')], [Some (JStr ''Hidro'')]]"
  using export_columns_xlsx_union_csv_first_record
    [of scenarioEnv freshWorld "[''/app'', ''out.csv'']" "[(''name'', JStr ''Agro'')]"
        "[[(''name'', JStr ''Hidro''), (''website_url'', JStr ''hidro.mk'')]]" "[''/app'', ''out.xlsx'']"]
  by (simp add: scenarioEnv_def objectKeys_def getProp_def xlsxColumns_def xlsxRows_def unionOfKeys_def
      csvRows_def)

section \<open>What the fetcher throws\<close>

lemmas fetcher_defs = searchGoogleMaps_def searchGoogleMaps_try_def searchGoogleMaps_catch_def
  searchGoogleMaps_finally_def searchGoogleMaps_cleanup_def browserSet_def pageSet_def smartScroll_def
  withRetry_def messageOf_def nameOf_def messageIncludes_def errorObject_def readOfUndefined_def
  notAFunction_def getProp_def

text \<open>
  The \<^verbatim>\<open>catch\<close> block returns \<^verbatim>\<open>[]\<close> for every \<^verbatim>\<open>Error\<close>, and for
  every value named \<^verbatim>\<open>TimeoutError\<close>, whatever its message.
\<close>

lemma searchGoogleMaps_catch_Error:
  "searchGoogleMaps_catch (errorObject (JsError errorName errorMessage)) = Inr []"
  by (simp add: searchGoogleMaps_catch_def messageOf_def nameOf_def messageIncludes_def errorObject_def
      getProp_def split: bool.split)

lemma searchGoogleMaps_catch_TimeoutError:
  "getProp obj ''name'' = Some (JStr ''TimeoutError'') \<Longrightarrow> searchGoogleMaps_catch (Thrown obj) = Inr []"
  by (simp add: searchGoogleMaps_catch_def messageOf_def nameOf_def)

text \<open>
  It throws a TypeError for every other value whose message is not a string.
\<close>

lemma searchGoogleMaps_catch_no_message:
  assumes "getProp obj ''name'' \<noteq> Some (JStr ''TimeoutError'')"
      and "\<forall>s. getProp obj ''message'' \<noteq> Some (JStr s)"
  shows "\<exists>message. searchGoogleMaps_catch (Thrown obj) = Inl (JsError ''TypeError'' message)"
proof (cases "getProp obj ''message''")
  case None
  with assms(1) show ?thesis
    by (simp add: searchGoogleMaps_catch_def messageOf_def nameOf_def messageIncludes_def readOfUndefined_def)
next
  case (Some v)
  with assms show ?thesis
    by (cases v)
      (simp_all add: searchGoogleMaps_catch_def messageOf_def nameOf_def messageIncludes_def
        readOfUndefined_def notAFunction_def)
qed

text \<open>
  When the \<^verbatim>\<open>try\<close> block throws an \<^verbatim>\<open>Error\<close> and the clean-up throws
  nothing, \<^verbatim>\<open>searchGoogleMaps\<close> returns \<^verbatim>\<open>[]\<close>, and
  \<^verbatim>\<open>searchMapsWithRetry\<close> over it returns \<^verbatim>\<open>[]\<close> after that one call.
\<close>

lemma searchGoogleMaps_swallows_Error:
  assumes "searchGoogleMaps_try (browser tr q c) = Inl (errorObject (JsError errorName errorMessage))"
      and "searchGoogleMaps_cleanup (browser tr q c) = None"
  shows "searchGoogleMaps browser tr q c = Inr []"
  using assms by (simp add: searchGoogleMaps_def searchGoogleMaps_finally_def searchGoogleMaps_catch_Error)

lemma searchMapsWithRetry_one_call_on_Error:
  assumes f: "fetch env = searchGoogleMaps browser"
      and t: "searchGoogleMaps_try
               (browser (trace w @ [Fetch (searchQuery query cityname statename countryname) countrycode])
                  (searchQuery query cityname statename countryname) countrycode)
              = Inl (errorObject (JsError errorName errorMessage))"
      and cl: "searchGoogleMaps_cleanup
               (browser (trace w @ [Fetch (searchQuery query cityname statename countryname) countrycode])
                  (searchQuery query cityname statename countryname) countrycode) = None"
  shows "searchMapsWithRetry env cfg query cityname statename countryname countrycode w
            = (Some [], emit (Fetch (searchQuery query cityname statename countryname) countrycode) w)"
proof -
  have "attempt_try env cfg query cityname statename countryname countrycode
      (emit (Fetch (searchQuery query cityname statename countryname) countrycode) w) = Inr []"
    using f searchGoogleMaps_swallows_Error [where browser = browser, OF t cl]
    by (simp add: attempt_try_def emit_def filterByCategory_def)
  then show ?thesis
    unfolding searchMapsWithRetry_def
    by (subst searchMapsWithRetry_from.simps) simp
qed

text \<open>
  C10 fails on the code. The launch of the browser is rejected, at each of the
  three attempts of \<^verbatim>\<open>withRetry\<close>, with a value that has no
  \<^verbatim>\<open>message\<close>. The \<^verbatim>\<open>catch\<close> block of \<^verbatim>\<open>searchGoogleMaps\<close>
  then evaluates \<^verbatim>\<open>error.message.includes('net::ERR_')\<close> on
  \<^verbatim>\<open>undefined\<close>, and the TypeError this throws leaves the function: the
  fetcher throws to its caller instead of returning \<^verbatim>\<open>[]\<close>, and
  \<^verbatim>\<open>searchMapsWithRetry\<close>, with one retry, waits and calls the fetcher a
  second time. A launch that times out at each attempt is caught as the claim
  says.
\<close>

theorem searchGoogleMaps_throws_on_value_without_message:
  "searchGoogleMaps rejectingBrowser [] ''pumps near Ohrid Macedonia'' ''MK''
     = Inl (JsError ''TypeError'' ''Cannot read properties of undefined'')
   \<and> searchMapsWithRetry (scenarioEnv\<lparr>fetch := searchGoogleMaps rejectingBrowser\<rparr>) scenarioConfig
        ''pumps'' [] ''Ohrid'' ''Macedonia'' ''MK'' freshWorld
     = (Some [], freshWorld\<lparr>trace := [Fetch ''pumps near Ohrid Macedonia'' ''MK'', Sleep 1000 3000,
          Fetch ''pumps near Ohrid Macedonia'' ''MK'']\<rparr>)
   \<and> searchGoogleMaps brokenBrowser [] ''pumps near Ohrid Macedonia'' ''MK'' = Inr []
   \<and> searchMapsWithRetry (scenarioEnv\<lparr>fetch := searchGoogleMaps brokenBrowser\<rparr>) scenarioConfig
        ''pumps'' [] ''Ohrid'' ''Macedonia'' ''MK'' freshWorld
     = (Some [], freshWorld\<lparr>trace := [Fetch ''pumps near Ohrid Macedonia'' ''MK'']\<rparr>)"
proof -
  have r: "searchGoogleMaps rejectingBrowser tr q c = Inl (JsError ''TypeError'' ''Cannot read properties of undefined'')"
    for tr q c
    by (simp add: fetcher_defs rejectingBrowser_def withRetry_from.simps)
  have b: "searchGoogleMaps brokenBrowser tr q c = Inr []" for tr q c
    by (simp add: fetcher_defs brokenBrowser_def timeoutError_def withRetry_from.simps)
  have r2: "searchMapsWithRetry (scenarioEnv\<lparr>fetch := searchGoogleMaps rejectingBrowser\<rparr>) scenarioConfig
        ''pumps'' [] ''Ohrid'' ''Macedonia'' ''MK'' freshWorld
     = (Some [], freshWorld\<lparr>trace := [Fetch ''pumps near Ohrid Macedonia'' ''MK'', Sleep 1000 3000,
          Fetch ''pumps near Ohrid Macedonia'' ''MK'']\<rparr>)"
    by (simp add: searchMapsWithRetry_def searchMapsWithRetry_from.simps attempt_try_def r
        scenarioEnv_def scenarioConfig_def freshWorld_def searchQuery_def emit_def)
  have b2: "searchMapsWithRetry (scenarioEnv\<lparr>fetch := searchGoogleMaps brokenBrowser\<rparr>) scenarioConfig
        ''pumps'' [] ''Ohrid'' ''Macedonia'' ''MK'' freshWorld
     = (Some [], freshWorld\<lparr>trace := [Fetch ''pumps near Ohrid Macedonia'' ''MK'']\<rparr>)"
    by (simp add: searchMapsWithRetry_def searchMapsWithRetry_from.simps attempt_try_def b
        scenarioEnv_def scenarioConfig_def freshWorld_def searchQuery_def emit_def filterByCategory_def)
  from r b r2 b2 show ?thesis by simp
qed


section \<open>What a state boundary leaves behind\<close>

lemmas scenario_defs = scenarioEnv_def scenarioConfig_def scenarioFetch_def freshWorld_def
  macedonia_def bitola_def ohrid_def twoShops_def threeCities_def timeoutError_def

lemmas run_defs = processCountry_def processCountry_try_def processStatesConcurrently_def
  processState_def stateBusinesses_def searchMapsWithRetry_def searchMapsWithRetry_from.simps
  attempt_try_def filterByCategory_def updatedBusiness_def searchQuery_def stateKey_def cityKey_def
  markStateComplete_def markCountryComplete_def markCityComplete_def markUndeclaredCityKey_def
  isStateDone_def isCountryDone_def isCityDone_def orEmpty_def emptyProgress_def
  loadProgress_def saveProgress_def progressPath_def saveStateResults_def updateCumulativeResults_def
  saveCityResults_def translateQuery_def firstLanguage_def exportResults_def
  removeDuplicates_def dedupKey_def getProp_def replaceSpaces_def isSpace_def orElse_def
  readOfUndefined_def fs_defs Let_def sublist_code prefix_code

lemma processState_always_throws:
  "\<exists>e. fst (processState env cfg state country query localizedQuery w) = Inl e"
proof -
  obtain r w1 where sb: "stateBusinesses env cfg state country query localizedQuery w = (r, w1)"
    by (cases "stateBusinesses env cfg state country query localizedQuery w")
  show ?thesis
  proof (cases r)
    case (Inl e)
    with sb show ?thesis by (simp add: processState_def)
  next
    case (Inr found)
    with sb show ?thesis
      by (cases "markStateComplete (progressData w1) (stateKey country state)")
        (simp_all add: processState_def markUndeclaredCityKey_def Let_def)
  qed
qed

text \<open>
  C2. The claim: after each state of the per-state loop the progress tree is
  saved to \<^verbatim>\<open>progress.json\<close>. In the code line 895 stands between the
  state's work and the \<^verbatim>\<open>saveProgress\<close> of line 897 and throws a
  ReferenceError, so the body of the loop never ends normally, for no state
  and no input. For the state Ohrid, whose search succeeds, the state's
  results and the cumulative file are written, the function ends with the
  error, and no \<^verbatim>\<open>progress.json\<close> is written.
\<close>

theorem processStatesConcurrently_throws_before_saveProgress:
  "(\<exists>e. fst (processState env cfg state country query localizedQuery w) = Inl e)
   \<and> fst (processStatesConcurrently scenarioEnv scenarioConfig [Some ohrid, Some bitola] macedonia
          ''pumps'' ''pumps'' (freshWorld\<lparr>progressData := emptyProgress\<rparr>))
     = Inl (JsError ''ReferenceError'' ''cityKey is not defined'')
   \<and> writtenPaths (trace (snd (processStatesConcurrently scenarioEnv scenarioConfig [Some ohrid, Some bitola]
          macedonia ''pumps'' ''pumps'' (freshWorld\<lparr>progressData := emptyProgress\<rparr>))))
     = [[''/app'', ''output'', ''pumps'', ''MK'', ''states'', ''Ohrid.json''],
        [''/app'', ''output'', ''pumps'', ''MK'', ''cumulative.json'']]
   \<and> files (snd (processStatesConcurrently scenarioEnv scenarioConfig [Some ohrid, Some bitola] macedonia
          ''pumps'' ''pumps'' (freshWorld\<lparr>progressData := emptyProgress\<rparr>)))
       (progressPath scenarioConfig ''pumps'' ''MK'') = None"
proof -
  have "fst (processStatesConcurrently scenarioEnv scenarioConfig [Some ohrid, Some bitola] macedonia
          ''pumps'' ''pumps'' (freshWorld\<lparr>progressData := emptyProgress\<rparr>))
     = Inl (JsError ''ReferenceError'' ''cityKey is not defined'')
   \<and> writtenPaths (trace (snd (processStatesConcurrently scenarioEnv scenarioConfig [Some ohrid, Some bitola]
          macedonia ''pumps'' ''pumps'' (freshWorld\<lparr>progressData := emptyProgress\<rparr>))))
     = [[''/app'', ''output'', ''pumps'', ''MK'', ''states'', ''Ohrid.json''],
        [''/app'', ''output'', ''pumps'', ''MK'', ''cumulative.json'']]
   \<and> files (snd (processStatesConcurrently scenarioEnv scenarioConfig [Some ohrid, Some bitola] macedonia
          ''pumps'' ''pumps'' (freshWorld\<lparr>progressData := emptyProgress\<rparr>)))
       (progressPath scenarioConfig ''pumps'' ''MK'') = None"
    by (simp add: run_defs scenario_defs)
  with processState_always_throws [of env cfg state country query localizedQuery w]
  show ?thesis by blast
qed











section \<open>The pool keeps its invariant\<close>

lemma claimsOf_append [simp]: "claimsOf (xs @ ys) = claimsOf xs @ claimsOf ys"
  by (induction xs rule: claimsOf.induct) auto

lemma fetchesOf_append [simp]: "fetchesOf (xs @ ys) = fetchesOf xs @ fetchesOf ys"
  by (induction xs rule: fetchesOf.induct) auto

lemma claimsOf_map_Claim [simp]: "claimsOf (map Claim xs) = xs"
  by (induction xs) auto

lemma fetchesOf_map_Claim [simp]: "fetchesOf (map Claim xs) = []"
  by (induction xs) auto

lemma quiet_refl [simp]: "quiet w w"
  by (simp add: quiet_def)

lemma quiet_trans: "quiet w w' \<Longrightarrow> quiet w' w'' \<Longrightarrow> quiet w w''"
  by (auto simp: quiet_def)

lemma quiet_ensureDir: "quiet w (snd (ensureDir env p w))"
  by (simp add: quiet_def fs_defs Let_def)

lemma quiet_writeFile: "quiet w (snd (writeFile env p c w))"
  by (simp add: quiet_def fs_defs Let_def split: option.split)

lemma quiet_pathExists: "quiet w (snd (pathExists env p w))"
  by (simp add: quiet_def fs_defs Let_def split: option.split)

lemma quiet_readJson: "quiet w (snd (readJson env p w))"
  by (simp add: quiet_def fs_defs Let_def split: option.split content.split)

lemma quiet_sleep: "quiet w (emit (Sleep lo hi) w)"
  by (simp add: quiet_def emit_def)

lemma quiet_saveCityResults: "quiet w (saveCityResults env cfg businesses query country state city w)"
proof -
  let ?d = "[dirname cfg, ''output'', query, iso2 country, ''cities'', iso2 state]"
  obtain r w1 where e: "ensureDir env ?d w = (r, w1)" by (cases "ensureDir env ?d w")
  have q1: "quiet w w1" using quiet_ensureDir [of w env ?d] e by simp
  show ?thesis
  proof (cases r)
    case None
    with e q1 quiet_writeFile [of w1 env] show ?thesis
      by (auto simp: saveCityResults_def Let_def intro: quiet_trans)
  next
    case (Some a)
    with e q1 show ?thesis by (simp add: saveCityResults_def Let_def)
  qed
qed


lemma claimNext_effect:
  "claimNext cities state country lq index w = (nxt, index', w') \<Longrightarrow>
   progressData w' = progressData w \<and> files w' = files w \<and>
   (\<exists>evs. trace w' = trace w @ evs \<and> claimsOf evs = [index..<index'] \<and>
      ((nxt = Finished \<and> fetchesOf evs = []) \<or>
       (\<exists>city. nxt = AwaitFetch city 0 \<and> openCity cities state country (progressData w) city
          \<and> fetchesOf evs = [(searchQuery lq (name city) (name state) (name country), iso2 country)])))"
proof (induction cities state country lq index w rule: claimNext.induct)
  case (1 cities state country lq index w)
  show ?case
  proof (cases "index < length cities")
    case False
    with "1.prems" show ?thesis by (simp add: claimNext.simps [of cities state country lq index w])
  next
    case True
    note lt = this
    let ?w1 = "emit (Claim index) w"
    have rec: ?thesis
      if r: "claimNext cities state country lq (index + 1) ?w1 = (nxt, index', w')"
        and ih: "progressData w' = progressData ?w1 \<and> files w' = files ?w1 \<and>
          (\<exists>evs. trace w' = trace ?w1 @ evs \<and> claimsOf evs = [index + 1..<index'] \<and>
            ((nxt = Finished \<and> fetchesOf evs = []) \<or>
             (\<exists>city. nxt = AwaitFetch city 0 \<and> openCity cities state country (progressData ?w1) city
               \<and> fetchesOf evs = [(searchQuery lq (name city) (name state) (name country), iso2 country)])))"
    proof -
      from claimNext_bounds [OF r] have le: "index + 1 \<le> index'" by simp
      from ih obtain evs where evs: "trace w' = trace ?w1 @ evs" "claimsOf evs = [index + 1..<index']"
        "(nxt = Finished \<and> fetchesOf evs = []) \<or>
             (\<exists>city. nxt = AwaitFetch city 0 \<and> openCity cities state country (progressData ?w1) city
               \<and> fetchesOf evs = [(searchQuery lq (name city) (name state) (name country), iso2 country)])"
        by blast
      have "trace w' = trace w @ (Claim index # evs)" using evs(1) by (simp add: emit_def)
      moreover have "claimsOf (Claim index # evs) = [index..<index']"
        using evs(2) le by (simp add: upt_conv_Cons)
      moreover have "fetchesOf (Claim index # evs) = fetchesOf evs" by simp
      ultimately show ?thesis using ih evs(3) by (auto simp: emit_def)
    qed
    show ?thesis
    proof (cases "cities ! index")
      case None
      with lt "1.prems" have r:
        "claimNext cities state country lq (index + 1) ?w1 = (nxt, index', w')"
        by (simp add: claimNext.simps [of cities state country lq index w] Let_def)
      from rec [OF r "1.IH"(1) [OF lt refl None r]] show ?thesis .
    next
      case (Some city)
      show ?thesis
      proof (cases "isCityDone (progressData ?w1) (cityKey country state city)")
        case True
        with lt Some "1.prems" have r:
          "claimNext cities state country lq (index + 1) ?w1 = (nxt, index', w')"
          by (simp add: claimNext.simps [of cities state country lq index w] Let_def)
        from rec [OF r "1.IH"(2) [OF lt refl Some True r]] show ?thesis .
      next
        case False
        from lt Some have mem: "Some city \<in> set cities" by (metis nth_mem)
        have "trace (emit (Fetch (searchQuery lq (name city) (name state) (name country)) (iso2 country)) ?w1)
            = trace w @ [Claim index, Fetch (searchQuery lq (name city) (name state) (name country)) (iso2 country)]"
          by (simp add: emit_def)
        with False lt Some "1.prems" mem show ?thesis
          by (auto simp add: claimNext.simps [of cities state country lq index w] Let_def emit_def openCity_def
              intro!: exI [of _ "[Claim index, Fetch (searchQuery lq (name city) (name state) (name country)) (iso2 country)]"])
      qed
    qed
  qed
qed

lemma doneMono_refl [simp]: "doneMono pd pd"
  by (simp add: doneMono_def)

lemma doneMono_trans: "doneMono a b \<Longrightarrow> doneMono b c \<Longrightarrow> doneMono a c"
  by (simp add: doneMono_def)

lemma doneMono_markCity: "markCityComplete pd key = Inr pd' \<Longrightarrow> doneMono pd pd'"
  by (auto simp: markCityComplete_def doneMono_def isCityDone_def isStateDone_def isCountryDone_def
      orEmpty_def split: option.splits)

lemma doneMono_markState: "markStateComplete pd key = Inr pd' \<Longrightarrow> doneMono pd pd'"
  by (auto simp: markStateComplete_def doneMono_def isCityDone_def isStateDone_def isCountryDone_def
      orEmpty_def split: option.splits)

lemma doneMono_markCountry: "markCountryComplete pd key = Inr pd' \<Longrightarrow> doneMono pd pd'"
  by (auto simp: markCountryComplete_def doneMono_def isCityDone_def isStateDone_def isCountryDone_def
      orEmpty_def split: option.splits)

lemma openCity_antimono:
  "doneMono pd0 pd \<Longrightarrow> openCity cities state country pd city \<Longrightarrow> openCity cities state country pd0 city"
  by (auto simp: openCity_def doneMono_def)

lemma upt_split: "a \<le> b \<Longrightarrow> [0..<a] @ [a..<b] = [0..<b]"
  using upt_add_eq_append [of 0 a "b - a"] by simp

lemma poolInv_step:
  assumes inv: "poolInv cities state country lq w0 k pw"
      and step: "poolStep cities state country lq pw pw'"
      and len: "length (workers (fst pw')) = k'"
  shows "poolInv cities state country lq w0 k' pw'"
proof -
  from inv obtain evs0 where e0: "trace (snd pw) = trace w0 @ evs0" "claimsOf evs0 = [0..<cityIndex (fst pw)]"
    "\<forall>f \<in> set (fetchesOf evs0). cityFetch cities state country lq (progressData w0) f"
    and m0: "doneMono (progressData w0) (progressData (snd pw))"
    and s0: "\<forall>pc \<in> set (workers (fst pw)). \<forall>city. searching pc = Some city
         \<longrightarrow> openCity cities state country (progressData w0) city"
    unfolding poolInv_def by blast
  from step obtain evs where le: "cityIndex (fst pw) \<le> cityIndex (fst pw')"
    and e: "trace (snd pw') = trace (snd pw) @ evs" "claimsOf evs = [cityIndex (fst pw)..<cityIndex (fst pw')]"
    "\<forall>f \<in> set (fetchesOf evs). \<exists>city. known cities state country pw city
               \<and> f = (searchQuery lq (name city) (name state) (name country), iso2 country)"
    and m: "doneMono (progressData (snd pw)) (progressData (snd pw'))"
    and s: "\<forall>pc \<in> set (workers (fst pw')). \<forall>city. searching pc = Some city \<longrightarrow> known cities state country pw city"
    unfolding poolStep_def by blast
  have k: "openCity cities state country (progressData w0) city" if "known cities state country pw city" for city
    using that s0 openCity_antimono [OF m0] unfolding known_def by blast
  have "trace (snd pw') = trace w0 @ (evs0 @ evs)" using e0(1) e(1) by simp
  moreover have "claimsOf (evs0 @ evs) = [0..<cityIndex (fst pw')]"
    using e0(2) e(2) le by (simp add: upt_split)
  moreover have "\<forall>f \<in> set (fetchesOf (evs0 @ evs)). cityFetch cities state country lq (progressData w0) f"
  proof
    fix f assume "f \<in> set (fetchesOf (evs0 @ evs))"
    then have "f \<in> set (fetchesOf evs0) \<or> f \<in> set (fetchesOf evs)" by simp
    then show "cityFetch cities state country lq (progressData w0) f"
    proof
      assume "f \<in> set (fetchesOf evs0)"
      with e0(3) show ?thesis by blast
    next
      assume "f \<in> set (fetchesOf evs)"
      with e(3) obtain city where "known cities state country pw city"
        "f = (searchQuery lq (name city) (name state) (name country), iso2 country)"
        by blast
      with k [of city] show ?thesis unfolding cityFetch_def by blast
    qed
  qed
  moreover have "doneMono (progressData w0) (progressData (snd pw'))" using m0 m by (rule doneMono_trans)
  moreover have "\<forall>pc \<in> set (workers (fst pw')). \<forall>city. searching pc = Some city
         \<longrightarrow> openCity cities state country (progressData w0) city"
    using s k by blast
  ultimately show ?thesis unfolding poolInv_def using len by blast
qed

lemma known_old:
  "pc \<in> set (workers (fst pw)) \<Longrightarrow> searching pc = Some city \<Longrightarrow> known cities state country pw city"
  unfolding known_def by blast

lemma known_open:
  "openCity cities state country (progressData (snd pw)) city \<Longrightarrow> known cities state country pw city"
  unfolding known_def by blast

lemma poolStep_quiet:
  assumes "cityIndex p' = cityIndex p"
      and "quiet w w'"
      and "\<forall>pc \<in> set (workers p'). \<forall>city. searching pc = Some city \<longrightarrow> known cities state country (p, w) city"
  shows "poolStep cities state country lq (p, w) (p', w')"
proof -
  from assms(2) obtain evs where "trace w' = trace w @ evs" "claimsOf evs = []" "fetchesOf evs = []"
    "progressData w' = progressData w"
    unfolding quiet_def by blast
  with assms(1,3) show ?thesis unfolding poolStep_def by auto
qed

lemma poolStep_mark:
  assumes "cityIndex p' = cityIndex p"
      and "quiet (w\<lparr>progressData := pd\<rparr>) w'"
      and "doneMono (progressData w) pd"
      and "\<forall>pc \<in> set (workers p'). \<forall>city. searching pc = Some city \<longrightarrow> known cities state country (p, w) city"
  shows "poolStep cities state country lq (p, w) (p', w')"
proof -
  from assms(2) obtain evs where "trace w' = trace w @ evs" "claimsOf evs = []" "fetchesOf evs = []"
    "progressData w' = pd"
    unfolding quiet_def by auto
  with assms(1,3,4) show ?thesis unfolding poolStep_def by auto
qed

lemma poolStep_nextTask:
  assumes same: "workers p1 = workers p" "cityIndex p1 = cityIndex p"
      and i: "i < length (workers p)"
  shows "poolStep cities state country lq (p, w) (nextTask cities state country lq i p1 w)"
proof -
  obtain nxt index w1 where c: "claimNext cities state country lq (cityIndex p) w = (nxt, index, w1)"
    by (cases "claimNext cities state country lq (cityIndex p) w") auto
  from claimNext_bounds [OF c] have le: "cityIndex p \<le> index" by simp
  from claimNext_effect [OF c] obtain evs where
    pd: "progressData w1 = progressData w"
    and evs: "trace w1 = trace w @ evs" "claimsOf evs = [cityIndex p..<index]"
    and alt: "(nxt = Finished \<and> fetchesOf evs = []) \<or>
       (\<exists>city. nxt = AwaitFetch city 0 \<and> openCity cities state country (progressData w) city
          \<and> fetchesOf evs = [(searchQuery lq (name city) (name state) (name country), iso2 country)])"
    by blast
  have n: "nextTask cities state country lq i p1 w
      = (p1\<lparr>cityIndex := index, workers := (workers p)[i := nxt]\<rparr>, w1)"
    using c same by (simp add: nextTask_def)
  have f: "\<forall>f \<in> set (fetchesOf evs). \<exists>city. known cities state country (p, w) city
               \<and> f = (searchQuery lq (name city) (name state) (name country), iso2 country)"
  proof
    fix f assume fm: "f \<in> set (fetchesOf evs)"
    from alt fm obtain city where "openCity cities state country (progressData w) city"
      "f = (searchQuery lq (name city) (name state) (name country), iso2 country)"
      by auto
    then show "\<exists>city. known cities state country (p, w) city
               \<and> f = (searchQuery lq (name city) (name state) (name country), iso2 country)"
      using known_open [of cities state country "(p, w)" city] by auto
  qed
  have s: "\<forall>pc \<in> set ((workers p)[i := nxt]). \<forall>city. searching pc = Some city
      \<longrightarrow> known cities state country (p, w) city"
  proof (intro ballI allI impI)
    fix pc city assume pc: "pc \<in> set ((workers p)[i := nxt])" and sc: "searching pc = Some city"
    from pc have "pc = nxt \<or> pc \<in> set (workers p)"
      using set_update_subset_insert [of "workers p" i nxt] by auto
    then show "known cities state country (p, w) city"
    proof
      assume "pc = nxt"
      with sc alt show ?thesis by (auto intro: known_open)
    next
      assume "pc \<in> set (workers p)"
      with sc show ?thesis by (auto intro: known_old)
    qed
  qed
  show ?thesis
    unfolding n poolStep_def using le evs f s pd by auto
qed

lemma nextTask_length:
  "length (workers (fst (nextTask cities state country lq i p w))) = length (workers p)"
  by (simp add: nextTask_def split: prod.split)

lemma set_update_searching:
  assumes "pc \<in> set (ws[i := x])" "searching pc = Some city" "searching x = None \<or> searching x = searching (ws ! i)"
    "i < length ws"
  shows "\<exists>old \<in> set ws. searching old = Some city"
proof -
  from assms(1) have "pc = x \<or> pc \<in> set ws" using set_update_subset_insert [of ws i x] by auto
  then show ?thesis
  proof
    assume "pc = x"
    with assms(2,3) have "searching (ws ! i) = Some city" by auto
    moreover have "ws ! i \<in> set ws" using assms(4) by simp
    ultimately show ?thesis by blast
  next
    assume "pc \<in> set ws"
    with assms(2) show ?thesis by blast
  qed
qed

lemma poolStep_afterSearch:
  assumes i: "i < length (workers p)"
  shows "poolStep cities state country lq (p, w) (afterSearch cfg cities state country lq i city found p w)"
proof (cases found)
  case None
  with poolStep_nextTask [OF refl refl i] show ?thesis by (simp add: afterSearch_def)
next
  case (Some businesses)
  let ?p1 = "p\<lparr>results := results p @ businesses\<rparr>"
  show ?thesis
  proof (cases "markCityComplete (progressData w) (cityKey country state city)")
    case (Inl e)
    have "poolStep cities state country lq (p, w) (nextTask cities state country lq i ?p1 w)"
      using i by (intro poolStep_nextTask) simp_all
    with Some Inl show ?thesis by (simp add: afterSearch_def Let_def)
  next
    case (Inr pd)
    have k: "\<forall>pc \<in> set ((workers p)[i := x]). \<forall>c. searching pc = Some c \<longrightarrow> known cities state country (p, w) c"
      if "searching x = None" for x
    proof (intro ballI allI impI)
      fix pc c assume "pc \<in> set ((workers p)[i := x])" "searching pc = Some c"
      from set_update_searching [OF this _ i] that obtain old where
        "old \<in> set (workers p)" "searching old = Some c" by blast
      then show "known cities state country (p, w) c" by (auto intro: known_old)
    qed
    have a: "poolStep cities state country lq (p, w)
        (?p1\<lparr>workers := (workers ?p1)[i := AwaitSave city businesses]\<rparr>, w\<lparr>progressData := pd\<rparr>)"
      using k [of "AwaitSave city businesses"] doneMono_markCity [OF Inr]
      by (intro poolStep_mark [where pd = pd]) simp_all
    have b: "poolStep cities state country lq (p, w)
        (?p1\<lparr>workers := (workers ?p1)[i := AwaitDelay]\<rparr>,
         emit (Sleep (minDelay cfg) (maxDelay cfg)) (w\<lparr>progressData := pd\<rparr>))"
      using k [of AwaitDelay] doneMono_markCity [OF Inr] quiet_sleep
      by (intro poolStep_mark [where pd = pd]) simp_all
    show ?thesis
    proof (cases "businesses = []")
      case True
      with b Some Inr show ?thesis by (simp add: afterSearch_def Let_def)
    next
      case False
      with a Some Inr show ?thesis by (simp add: afterSearch_def Let_def)
    qed
  qed
qed

lemma afterSearch_length:
  "length (workers (fst (afterSearch cfg cities state country lq i city found p w))) = length (workers p)"
  by (simp add: afterSearch_def nextTask_length Let_def split: option.split sum.split)

lemma poolStep_same:
  "poolStep cities state country lq (p, w) (p, w)"
  by (intro poolStep_quiet) (auto intro: known_old)

lemma searching_kept:
  assumes i: "i < length (workers p)" and x: "searching x = None \<or> searching x = searching (workers p ! i)"
  shows "\<forall>pc \<in> set ((workers p)[i := x]). \<forall>c. searching pc = Some c \<longrightarrow> known cities state country (p, w) c"
proof (intro ballI allI impI)
  fix pc c assume "pc \<in> set ((workers p)[i := x])" "searching pc = Some c"
  from set_update_searching [OF this x i] obtain old where
    "old \<in> set (workers p)" "searching old = Some c" by blast
  then show "known cities state country (p, w) c" by (auto intro: known_old)
qed

lemma poolStep_resume:
  "poolStep cities state country lq (p, w) (resume env cfg cities state country query lq i (p, w))"
proof (cases "i < length (workers p)")
  case False
  then show ?thesis by (simp add: resume_def poolStep_same)
next
  case True
  note i = this
  show ?thesis
  proof (cases "workers p ! i")
    case (AwaitFetch city attempt)
    have bk: "poolStep cities state country lq (p, w)
        (p\<lparr>workers := (workers p)[i := AwaitBackoff city attempt]\<rparr>, emit (Sleep 1000 3000) w)"
      using searching_kept [OF i, of "AwaitBackoff city attempt"] AwaitFetch quiet_sleep
      by (intro poolStep_quiet) simp_all
    show ?thesis
      using i AwaitFetch bk poolStep_afterSearch [OF i]
      by (simp add: resume_def split: sum.split)
  next
    case (AwaitBackoff city attempt)
    let ?q = "searchQuery lq (name city) (name state) (name country)"
    have mem: "workers p ! i \<in> set (workers p)" using i by simp
    have kn: "known cities state country (p, w) city"
      using known_old [of "workers p ! i" "(p, w)" city] mem AwaitBackoff by simp
    have ag: "poolStep cities state country lq (p, w)
        (p\<lparr>workers := (workers p)[i := AwaitFetch city (attempt + 1)]\<rparr>, emit (Fetch ?q (iso2 country)) w)"
      unfolding poolStep_def
    proof (intro conjI)
      show "\<exists>evs. trace (snd (p\<lparr>workers := (workers p)[i := AwaitFetch city (attempt + 1)]\<rparr>,
                  emit (Fetch ?q (iso2 country)) w)) = trace (snd (p, w)) @ evs
          \<and> claimsOf evs = [cityIndex (fst (p, w))..<cityIndex (fst (p\<lparr>workers := (workers p)[i := AwaitFetch city (attempt + 1)]\<rparr>,
                  emit (Fetch ?q (iso2 country)) w))]
          \<and> (\<forall>f \<in> set (fetchesOf evs). \<exists>city. known cities state country (p, w) city
               \<and> f = (searchQuery lq (name city) (name state) (name country), iso2 country))"
        using kn by (intro exI [of _ "[Fetch ?q (iso2 country)]"]) (auto simp: emit_def)
      show "\<forall>pc \<in> set (workers (fst (p\<lparr>workers := (workers p)[i := AwaitFetch city (attempt + 1)]\<rparr>,
                  emit (Fetch ?q (iso2 country)) w))). \<forall>city. searching pc = Some city
            \<longrightarrow> known cities state country (p, w) city"
        using searching_kept [OF i, of "AwaitFetch city (attempt + 1)"] AwaitBackoff by simp
    qed (simp_all add: emit_def)
    show ?thesis
      using i AwaitBackoff ag poolStep_afterSearch [OF i]
      by (simp add: resume_def)
  next
    case (AwaitSave city businesses)
    have "quiet w (emit (Sleep (minDelay cfg) (maxDelay cfg))
        (saveCityResults env cfg businesses query country state city w))"
      using quiet_saveCityResults quiet_sleep by (rule quiet_trans)
    then have "poolStep cities state country lq (p, w)
        (p\<lparr>workers := (workers p)[i := AwaitDelay]\<rparr>,
         emit (Sleep (minDelay cfg) (maxDelay cfg)) (saveCityResults env cfg businesses query country state city w))"
      using searching_kept [OF i, of AwaitDelay]
      by (intro poolStep_quiet) simp_all
    with i AwaitSave show ?thesis by (simp add: resume_def)
  next
    case AwaitDelay
    with i poolStep_nextTask [OF refl refl i] show ?thesis by (simp add: resume_def)
  next
    case Finished
    with i show ?thesis by (simp add: resume_def poolStep_same)
  qed
qed

lemma resume_length:
  "length (workers (fst (resume env cfg cities state country query lq i (p, w)))) = length (workers p)"
  by (simp add: resume_def afterSearch_length nextTask_length split: pc.split sum.split)

lemma poolInv_resume:
  assumes "poolInv cities state country lq w0 k pw"
  shows "poolInv cities state country lq w0 k (resume env cfg cities state country query lq i pw)"
proof -
  obtain p w where pw: "pw = (p, w)" by (cases pw)
  from assms have "length (workers p) = k" by (simp add: poolInv_def pw)
  then have len: "length (workers (fst (resume env cfg cities state country query lq i (p, w)))) = k"
    by (simp add: resume_length)
  have "poolStep cities state country lq (p, w) (resume env cfg cities state country query lq i (p, w))"
    by (rule poolStep_resume)
  from poolInv_step [OF assms [unfolded pw] this len] show ?thesis by (simp add: pw)
qed

lemma poolInv_runSteps:
  "poolInv cities state country lq w0 k pw \<Longrightarrow>
   poolInv cities state country lq w0 k (runSteps n env cfg cities state country query lq pw)"
proof (induction n arbitrary: pw)
  case 0
  then show ?case by simp
next
  case (Suc n)
  show ?case
  proof (cases "active (fst pw) = []")
    case True
    with Suc.prems show ?thesis by simp
  next
    case False
    from Suc.IH [OF poolInv_resume [OF Suc.prems, of env cfg query "pick env pw"]] False
    show ?thesis by simp
  qed
qed

lemma active_remaining:
  assumes "active (fst pw) \<noteq> []"
  shows "remaining (retryCount cfg) cities (fst (resume env cfg cities state country query lq (pick env pw) pw))
     < remaining (retryCount cfg) cities (fst pw)"
proof -
  obtain p w where pw: "pw = (p, w)" by (cases pw)
  from pick_active [OF assms, of env] pw
  have "pick env pw < length (workers p)" and "workers p ! pick env pw \<noteq> Finished"
    by simp_all
  from resume_decreases [OF this, of cfg cities env state country query lq w]
  show ?thesis by (simp add: pw)
qed

lemma runWorkers_runSteps:
  "remaining (retryCount cfg) cities (fst pw) \<le> n \<Longrightarrow>
   runSteps n env cfg cities state country query lq pw = runWorkers env cfg cities state country query lq pw"
proof (induction n arbitrary: pw)
  case 0
  have "active (fst pw) = []"
  proof (rule ccontr)
    assume "active (fst pw) \<noteq> []"
    from active_remaining [OF this, of cfg cities env state country query lq] 0 show False by simp
  qed
  then show ?case by (simp add: runWorkers.simps)
next
  case (Suc n)
  show ?case
  proof (cases "active (fst pw) = []")
    case True
    then show ?thesis by (simp add: runWorkers.simps)
  next
    case False
    from active_remaining [OF False, of cfg cities env state country query lq] Suc.prems
    have "remaining (retryCount cfg) cities
        (fst (resume env cfg cities state country query lq (pick env pw) pw)) \<le> n"
      by simp
    from Suc.IH [OF this] False show ?thesis
      by (simp add: runWorkers.simps [of env cfg cities state country query lq pw])
  qed
qed

lemma poolInv_start:
  "poolInv cities state country lq w0 0 (\<lparr>cityIndex = 0, results = [], workers = []\<rparr>, w0)"
  by (simp add: poolInv_def)

lemma poolStep_startWorker:
  assumes c: "claimNext cities state country lq (cityIndex p) w = (nxt, index, w1)"
  shows "poolStep cities state country lq (p, w) (p\<lparr>cityIndex := index, workers := workers p @ [nxt]\<rparr>, w1)"
proof -
  from claimNext_bounds [OF c] have le: "cityIndex p \<le> index" by simp
  from claimNext_effect [OF c] obtain evs where
    pd: "progressData w1 = progressData w"
    and evs: "trace w1 = trace w @ evs" "claimsOf evs = [cityIndex p..<index]"
    and alt: "(nxt = Finished \<and> fetchesOf evs = []) \<or>
       (\<exists>city. nxt = AwaitFetch city 0 \<and> openCity cities state country (progressData w) city
          \<and> fetchesOf evs = [(searchQuery lq (name city) (name state) (name country), iso2 country)])"
    by blast
  have f: "\<forall>f \<in> set (fetchesOf evs). \<exists>city. known cities state country (p, w) city
               \<and> f = (searchQuery lq (name city) (name state) (name country), iso2 country)"
  proof
    fix f assume fm: "f \<in> set (fetchesOf evs)"
    from alt fm obtain city where "openCity cities state country (progressData w) city"
      "f = (searchQuery lq (name city) (name state) (name country), iso2 country)"
      by auto
    then show "\<exists>city. known cities state country (p, w) city
               \<and> f = (searchQuery lq (name city) (name state) (name country), iso2 country)"
      using known_open [of cities state country "(p, w)" city] by auto
  qed
  have s: "\<forall>pc \<in> set (workers p @ [nxt]). \<forall>city. searching pc = Some city
      \<longrightarrow> known cities state country (p, w) city"
  proof (intro ballI allI impI)
    fix pc city assume pc: "pc \<in> set (workers p @ [nxt])" and sc: "searching pc = Some city"
    from pc have "pc = nxt \<or> pc \<in> set (workers p)" by auto
    then show "known cities state country (p, w) city"
    proof
      assume "pc = nxt"
      with sc alt show ?thesis by (auto intro: known_open)
    next
      assume "pc \<in> set (workers p)"
      with sc show ?thesis by (auto intro: known_old)
    qed
  qed
  show ?thesis
    unfolding poolStep_def using le evs f s pd by auto
qed

lemma poolInv_startWorkers:
  "poolInv cities state country lq w0 n pw \<Longrightarrow>
   poolInv cities state country lq w0 (n + k) (startWorkers k cities state country lq pw)"
proof (induction k arbitrary: pw n)
  case 0
  then show ?case by simp
next
  case (Suc k)
  obtain p w where pw: "pw = (p, w)" by (cases pw)
  obtain nxt index w1 where c: "claimNext cities state country lq (cityIndex p) w = (nxt, index, w1)"
    by (cases "claimNext cities state country lq (cityIndex p) w") auto
  from Suc.prems have "length (workers p) = n" by (simp add: poolInv_def pw)
  then have "length (workers (fst (p\<lparr>cityIndex := index, workers := workers p @ [nxt]\<rparr>, w1))) = Suc n"
    by simp
  from poolInv_step [OF Suc.prems [unfolded pw] poolStep_startWorker [OF c] this]
  have "poolInv cities state country lq w0 (Suc n) (p\<lparr>cityIndex := index, workers := workers p @ [nxt]\<rparr>, w1)" .
  from Suc.IH [OF this] show ?case by (simp add: pw c)
qed

lemma poolInv_poolAt:
  "poolInv cities state country lq w (parallel cfg) (poolAt n env cfg cities state country query lq w)"
  unfolding poolAt_def startPool_def
  using poolInv_runSteps [OF poolInv_startWorkers [OF poolInv_start, of cities state country lq w "parallel cfg"]]
  by simp

section \<open>Resuming a country\<close>

lemma fetchesWithin_quiet: "quiet w w' \<Longrightarrow> fetchesWithin P w w'"
  by (auto simp: quiet_def fetchesWithin_def)

lemma fetchesWithin_refl [simp]: "fetchesWithin P w w"
  by (simp add: fetchesWithin_def)

lemma fetchesWithin_trans:
  "fetchesWithin P w w' \<Longrightarrow> fetchesWithin P w' w'' \<Longrightarrow> fetchesWithin P w w''"
  unfolding fetchesWithin_def
proof (elim exE conjE)
  fix evs evs'
  assume a: "trace w' = trace w @ evs" "\<forall>f\<in>set (fetchesOf evs). P f"
    "doneMono (progressData w) (progressData w')"
    and b: "trace w'' = trace w' @ evs'" "\<forall>f\<in>set (fetchesOf evs'). P f"
    "doneMono (progressData w') (progressData w'')"
  have "trace w'' = trace w @ (evs @ evs')" using a(1) b(1) by simp
  moreover have "\<forall>f\<in>set (fetchesOf (evs @ evs')). P f" using a(2) b(2) by auto
  moreover have "doneMono (progressData w) (progressData w'')" using a(3) b(3) by (rule doneMono_trans)
  ultimately show "\<exists>evs. trace w'' = trace w @ evs \<and> (\<forall>f\<in>set (fetchesOf evs). P f)
      \<and> doneMono (progressData w) (progressData w'')"
    by blast
qed

lemma fetchesWithin_mono:
  "fetchesWithin P w w' \<Longrightarrow> (\<And>f. P f \<Longrightarrow> Q f) \<Longrightarrow> fetchesWithin Q w w'"
  unfolding fetchesWithin_def by blast

lemma fetchesWithin_mark:
  "doneMono (progressData w) pd \<Longrightarrow> fetchesWithin P w (w\<lparr>progressData := pd\<rparr>)"
  by (simp add: fetchesWithin_def)

lemma fetchesWithin_fetch: "P (q, c) \<Longrightarrow> fetchesWithin P w (emit (Fetch q c) w)"
  by (simp add: fetchesWithin_def emit_def)

lemma searchMapsWithRetry_from_effect:
  "fetchesWithin (\<lambda>f. f = (searchQuery query cityname statename countryname, countrycode)) w
     (snd (searchMapsWithRetry_from env cfg query cityname statename countryname countrycode retries attempt w))"
proof (induction env cfg query cityname statename countryname countrycode retries attempt w
    rule: searchMapsWithRetry_from.induct)
  case (1 env cfg query cityname statename countryname countrycode retries attempt w)
  let ?P = "\<lambda>f. f = (searchQuery query cityname statename countryname, countrycode)"
  let ?w1 = "emit (Fetch (searchQuery query cityname statename countryname) countrycode) w"
  have f1: "fetchesWithin ?P w ?w1" by (rule fetchesWithin_fetch) simp
  show ?case
  proof (cases "attempt \<le> retries")
    case False
    then show ?thesis by (subst searchMapsWithRetry_from.simps) simp
  next
    case True
    show ?thesis
    proof (cases "attempt_try env cfg query cityname statename countryname countrycode ?w1")
      case (Inr filtered)
      with True f1 show ?thesis by (subst searchMapsWithRetry_from.simps) (simp add: Let_def)
    next
      case (Inl e)
      show ?thesis
      proof (cases "attempt = retries")
        case True
        with Inl f1 show ?thesis by (subst searchMapsWithRetry_from.simps) (simp add: Let_def)
      next
        case False
        have "fetchesWithin ?P ?w1 (emit (Sleep 1000 3000) ?w1)"
          by (rule fetchesWithin_quiet) (rule quiet_sleep)
        with f1 have "fetchesWithin ?P w (emit (Sleep 1000 3000) ?w1)" by (rule fetchesWithin_trans)
        from this "1.IH" [OF True refl Inl False]
        have "fetchesWithin ?P w
          (snd (searchMapsWithRetry_from env cfg query cityname statename countryname countrycode retries
             (attempt + 1) (emit (Sleep 1000 3000) ?w1)))"
          by (rule fetchesWithin_trans)
        with True Inl False show ?thesis
          by (subst searchMapsWithRetry_from.simps) (simp add: Let_def)
      qed
    qed
  qed
qed

lemma processCities_effect:
  "fetchesWithin (cityFetch cities state country lq (progressData w)) w
     (snd (processCitiesConcurrently env cfg cities state country query lq w))"
proof -
  let ?start = "startPool cfg cities state country lq w"
  let ?n = "remaining (retryCount cfg) cities (fst ?start)"
  have eq: "poolAt ?n env cfg cities state country query lq w
      = runWorkers env cfg cities state country query lq ?start"
    unfolding poolAt_def by (rule runWorkers_runSteps) simp
  have "poolInv cities state country lq w (parallel cfg) (poolAt ?n env cfg cities state country query lq w)"
    by (rule poolInv_poolAt)
  then have "fetchesWithin (cityFetch cities state country lq (progressData w)) w
      (snd (runWorkers env cfg cities state country query lq ?start))"
    unfolding eq poolInv_def fetchesWithin_def by blast
  then show ?thesis by (auto simp: processCitiesConcurrently_def split: prod.split)
qed

lemma quiet_updateCumulativeResults:
  "quiet w (updateCumulativeResults env cfg newBusinesses query country w)"
proof -
  let ?f = "[dirname cfg, ''output'', query, iso2 country, ''cumulative.json'']"
  obtain r w1 where e: "pathExists env ?f w = (r, w1)" by (cases "pathExists env ?f w")
  have q1: "quiet w w1" using quiet_pathExists [of w env ?f] e by simp
  obtain r2 w2 where e2: "readJson env ?f w1 = (r2, w2)" by (cases "readJson env ?f w1")
  have q2: "quiet w w2" using q1 quiet_readJson [of w1 env ?f] e2 by (auto intro: quiet_trans)
  have a: "quiet w (snd (writeFile env ?f c w1))" for c
    using q1 quiet_writeFile by (rule quiet_trans)
  have b: "quiet w (snd (writeFile env ?f c w2))" for c
    using q2 quiet_writeFile by (rule quiet_trans)
  show ?thesis
    using e e2 q1 q2 a b
    by (simp add: updateCumulativeResults_def Let_def split: sum.split bool.split content.split)
qed

lemma quiet_saveStateResults:
  "quiet w (saveStateResults env cfg businesses query country state w)"
proof -
  let ?d = "[dirname cfg, ''output'', query, iso2 country, ''states'']"
  obtain r w1 where e: "ensureDir env ?d w = (r, w1)" by (cases "ensureDir env ?d w")
  have q1: "quiet w w1" using quiet_ensureDir [of w env ?d] e by simp
  obtain r2 w2 where e2: "writeFile env (?d @ [replaceSpaces (name state) @ ''.json'']) (RecordsJson businesses) w1 = (r2, w2)"
    by (cases "writeFile env (?d @ [replaceSpaces (name state) @ ''.json'']) (RecordsJson businesses) w1")
  have q2: "quiet w w2"
    using q1 quiet_writeFile [of w1 env "?d @ [replaceSpaces (name state) @ ''.json'']" "RecordsJson businesses"] e2
    by (auto intro: quiet_trans)
  have q3: "quiet w (updateCumulativeResults env cfg businesses query country w2)"
    using q2 quiet_updateCumulativeResults by (rule quiet_trans)
  show ?thesis
    using e e2 q1 q2 q3 by (simp add: saveStateResults_def Let_def split: option.split)
qed

lemma quiet_saveProgress: "quiet w (saveProgress env cfg query countryCode pd w)"
proof -
  let ?d = "butlast (progressPath cfg query countryCode)"
  obtain r w1 where e: "ensureDir env ?d w = (r, w1)" by (cases "ensureDir env ?d w")
  have q1: "quiet w w1" using quiet_ensureDir [of w env ?d] e by simp
  have "quiet w (snd (writeFile env (progressPath cfg query countryCode) (ProgressJson pd) w1))"
    using q1 quiet_writeFile by (rule quiet_trans)
  with e q1 show ?thesis by (simp add: saveProgress_def split: option.split)
qed

lemma quiet_exportFormat: "quiet w (snd (exportFormat env businesses filePath format w))"
  by (simp add: exportFormat_def exportJSON_def exportCSV_def exportXLSX_def quiet_writeFile split: list.split)

lemma quiet_exportResults_formats:
  "quiet w (exportResults_formats env businesses outputDir countryName formats w)"
proof (induction formats arbitrary: w)
  case Nil
  show ?case by simp
next
  case (Cons format rest)
  show ?case
    using quiet_exportFormat Cons.IH by (simp, rule quiet_trans)
qed

lemma quiet_exportResults:
  "quiet w (snd (exportResults env cfg businesses query countryCode countryName w))"
proof -
  let ?d = "[dirname cfg, ''output'', query, countryCode, ''results'']"
  obtain r w1 where e: "ensureDir env ?d w = (r, w1)" by (cases "ensureDir env ?d w")
  have q1: "quiet w w1" using quiet_ensureDir [of w env ?d] e by simp
  have "quiet w (exportResults_formats env businesses ?d countryName (exportFormats cfg) w1)"
    using q1 quiet_exportResults_formats by (rule quiet_trans)
  with e q1 show ?thesis by (simp add: exportResults_def Let_def split: option.split)
qed

lemma loadProgress_effect:
  "\<exists>evs. trace (snd (loadProgress env cfg query countryCode w)) = trace w @ evs
     \<and> claimsOf evs = [] \<and> fetchesOf evs = []"
proof -
  let ?f = "progressPath cfg query countryCode"
  obtain r w1 where e: "pathExists env ?f w = (r, w1)" by (cases "pathExists env ?f w")
  have q1: "quiet w w1" using quiet_pathExists [of w env ?f] e by simp
  obtain r2 w2 where e2: "readJson env ?f w1 = (r2, w2)" by (cases "readJson env ?f w1")
  have q2: "quiet w w2" using q1 quiet_readJson [of w1 env ?f] e2 by (auto intro: quiet_trans)
  have "quiet w (snd (loadProgress env cfg query countryCode w))"
    using e e2 q1 q2 by (simp add: loadProgress_def split: sum.split bool.split content.split)
  then show ?thesis unfolding quiet_def by blast
qed

lemma cityFetch_antimono:
  "doneMono pd0 pd \<Longrightarrow> set cs \<subseteq> set cs' \<Longrightarrow> cityFetch cs state country lq pd f
   \<Longrightarrow> cityFetch cs' state country lq pd0 f"
  unfolding cityFetch_def openCity_def doneMono_def by blast

lemma stateFetch_antimono:
  "doneMono pd0 pd \<Longrightarrow> stateFetch env cfg state country lq pd f \<Longrightarrow> stateFetch env cfg state country lq pd0 f"
proof (cases "includeCities cfg")
  case True
  assume m: "doneMono pd0 pd" and f: "stateFetch env cfg state country lq pd f"
  from f True obtain cs where cs: "citiesByCountryState env (iso2 country) (iso2 state) = Inr cs"
    "cityFetch cs state country lq pd f"
    by (auto simp: stateFetch_def)
  from cityFetch_antimono [OF m subset_refl cs(2)] cs(1) True
  show "stateFetch env cfg state country lq pd0 f" by (auto simp: stateFetch_def)
next
  case False
  assume "stateFetch env cfg state country lq pd f"
  with False show "stateFetch env cfg state country lq pd0 f" by (simp add: stateFetch_def)
qed

lemma stateBusinesses_effect:
  assumes sh: "\<forall>tr xs. set (shuffle env tr xs) \<subseteq> set xs"
  shows "fetchesWithin (stateFetch env cfg state country lq (progressData w)) w
     (snd (stateBusinesses env cfg state country query lq w))"
proof (cases "includeCities cfg")
  case False
  have "fetchesWithin (\<lambda>f. f = (searchQuery lq [] (name state) (name country), iso2 country)) w
     (snd (searchMapsWithRetry env cfg lq [] (name state) (name country) (iso2 country) w))"
    unfolding searchMapsWithRetry_def by (rule searchMapsWithRetry_from_effect)
  then have "fetchesWithin (stateFetch env cfg state country lq (progressData w)) w
     (snd (searchMapsWithRetry env cfg lq [] (name state) (name country) (iso2 country) w))"
  proof (rule fetchesWithin_mono)
    fix f assume "f = (searchQuery lq [] (name state) (name country), iso2 country)"
    with False show "stateFetch env cfg state country lq (progressData w) f" by (simp add: stateFetch_def)
  qed
  moreover obtain r w1 where
    "searchMapsWithRetry env cfg lq [] (name state) (name country) (iso2 country) w = (r, w1)"
    by (cases "searchMapsWithRetry env cfg lq [] (name state) (name country) (iso2 country) w")
  ultimately show ?thesis
    using False by (cases r) (simp_all add: stateBusinesses_def)
next
  case True
  show ?thesis
  proof (cases "citiesByCountryState env (iso2 country) (iso2 state)")
    case (Inl e)
    with True show ?thesis by (simp add: stateBusinesses_def)
  next
    case (Inr citiesByState)
    let ?cs = "shuffle env (trace w) citiesByState"
    have "fetchesWithin (cityFetch ?cs state country lq (progressData w)) w
       (snd (processCitiesConcurrently env cfg ?cs state country query lq w))"
      by (rule processCities_effect)
    then have "fetchesWithin (stateFetch env cfg state country lq (progressData w)) w
       (snd (processCitiesConcurrently env cfg ?cs state country query lq w))"
    proof (rule fetchesWithin_mono)
      fix f assume cf: "cityFetch ?cs state country lq (progressData w) f"
      have sub: "set ?cs \<subseteq> set citiesByState" using sh by blast
      have "cityFetch citiesByState state country lq (progressData w) f"
        using doneMono_refl sub cf by (rule cityFetch_antimono)
      with True Inr show "stateFetch env cfg state country lq (progressData w) f"
        by (simp add: stateFetch_def)
    qed
    moreover obtain r w1 where
      "processCitiesConcurrently env cfg ?cs state country query lq w = (r, w1)"
      by (cases "processCitiesConcurrently env cfg ?cs state country query lq w")
    ultimately show ?thesis
      using True Inr by (simp add: stateBusinesses_def Let_def)
  qed
qed

lemma processState_effect:
  assumes sh: "\<forall>tr xs. set (shuffle env tr xs) \<subseteq> set xs"
  shows "fetchesWithin (stateFetch env cfg state country lq (progressData w)) w
     (snd (processState env cfg state country query lq w))"
proof -
  let ?P = "stateFetch env cfg state country lq (progressData w)"
  obtain r w1 where sb: "stateBusinesses env cfg state country query lq w = (r, w1)"
    by (cases "stateBusinesses env cfg state country query lq w")
  from stateBusinesses_effect [OF sh, of cfg state country lq w query] sb
  have f1: "fetchesWithin ?P w w1" by simp
  show ?thesis
  proof (cases r)
    case (Inl e)
    with sb f1 show ?thesis by (simp add: processState_def)
  next
    case (Inr found)
    show ?thesis
    proof (cases "markStateComplete (progressData w1) (stateKey country state)")
      case (Inl e)
      with sb Inr f1 show ?thesis by (simp add: processState_def)
    next
      case m: (Inr pd)
      let ?w2 = "w1\<lparr>progressData := pd\<rparr>"
      have f2: "fetchesWithin ?P w ?w2"
        using f1 fetchesWithin_mark [OF doneMono_markState [OF m]] by (rule fetchesWithin_trans)
      have f3: "fetchesWithin ?P w (saveStateResults env cfg found query country state ?w2)"
        using f2 fetchesWithin_quiet [OF quiet_saveStateResults] by (rule fetchesWithin_trans)
      from sb Inr m f2 f3 show ?thesis
        by (simp add: processState_def markUndeclaredCityKey_def Let_def)
    qed
  qed
qed

lemma leafFetch_Cons: "leafFetch env cfg rest country lq pd f \<Longrightarrow> leafFetch env cfg (x # rest) country lq pd f"
  unfolding leafFetch_def by auto

lemma processStates_loop_effect:
  assumes sh: "\<forall>tr xs. set (shuffle env tr xs) \<subseteq> set xs"
  shows "doneMono pd0 (progressData w) \<Longrightarrow>
     fetchesWithin (leafFetch env cfg stateList country lq pd0) w
       (snd (processStates_loop env cfg stateList country query lq found w))"
proof (induction stateList arbitrary: found w)
  case Nil
  show ?case by simp
next
  case (Cons x rest)
  have ih: "fetchesWithin (leafFetch env cfg (x # rest) country lq pd0) w'
       (snd (processStates_loop env cfg rest country query lq found' w'))"
    if "doneMono pd0 (progressData w')" for found' w'
    using Cons.IH [OF that, of found'] by (rule fetchesWithin_mono) (rule leafFetch_Cons)
  show ?case
  proof (cases x)
    case None
    with ih [OF Cons.prems] show ?thesis by simp
  next
    case (Some state)
    show ?thesis
    proof (cases "isStateDone (progressData w) (stateKey country state)")
      case True
      with Some ih [OF Cons.prems] show ?thesis by simp
    next
      case False
      then have open0: "\<not> isStateDone pd0 (stateKey country state)"
        using Cons.prems by (auto simp: doneMono_def)
      obtain r w1 where ps: "processState env cfg state country query lq w = (r, w1)"
        by (cases "processState env cfg state country query lq w")
      from processState_effect [OF sh, of cfg state country lq w query] ps
      have "fetchesWithin (stateFetch env cfg state country lq (progressData w)) w w1" by simp
      then have f1: "fetchesWithin (leafFetch env cfg (x # rest) country lq pd0) w w1"
      proof (rule fetchesWithin_mono)
        fix f assume "stateFetch env cfg state country lq (progressData w) f"
        from stateFetch_antimono [OF Cons.prems this] open0 Some
        show "leafFetch env cfg (x # rest) country lq pd0 f"
          unfolding leafFetch_def by auto
      qed
      then have "doneMono (progressData w) (progressData w1)" unfolding fetchesWithin_def by blast
      with Cons.prems have m1: "doneMono pd0 (progressData w1)" by (rule doneMono_trans)
      show ?thesis
      proof (cases r)
        case (Inl e)
        with Some False ps f1 show ?thesis by simp
      next
        case (Inr added)
        from f1 ih [OF m1, of "found @ added"]
        have "fetchesWithin (leafFetch env cfg (x # rest) country lq pd0) w
          (snd (processStates_loop env cfg rest country query lq (found @ added) w1))"
          by (rule fetchesWithin_trans)
        with Some False ps Inr show ?thesis by simp
      qed
    qed
  qed
qed

lemma leafFetch_subset:
  "set xs \<subseteq> set ys \<Longrightarrow> leafFetch env cfg xs country lq pd f \<Longrightarrow> leafFetch env cfg ys country lq pd f"
  unfolding leafFetch_def by blast

lemma processCountry_try_effect:
  assumes sh: "\<forall>tr xs. set (shuffle env tr xs) \<subseteq> set xs"
  shows "fetchesWithin (remainingLeaf env cfg (progressData w) country query) w
     (snd (processCountry_try env cfg country query w))"
proof (cases "countrylocalemap env (iso2 country)")
  case (Inl e)
  then show ?thesis by (simp add: processCountry_try_def)
next
  case l: (Inr languages)
  let ?lq = "translateQuery env cfg query (firstLanguage languages)"
  show ?thesis
  proof (cases "statesByCountry env (iso2 country)")
    case (Inl e)
    with l show ?thesis by (simp add: processCountry_try_def Let_def)
  next
    case s: (Inr allStates)
    let ?P = "remainingLeaf env cfg (progressData w) country query"
    let ?sl = "shuffle env (trace w) allStates"
    obtain r w1 where ps: "processStatesConcurrently env cfg ?sl country query ?lq w = (r, w1)"
      by (cases "processStatesConcurrently env cfg ?sl country query ?lq w")
    have "fetchesWithin (leafFetch env cfg ?sl country ?lq (progressData w)) w w1"
      using processStates_loop_effect [OF sh doneMono_refl, of cfg ?sl country ?lq w query "[]"] ps
      by (simp add: processStatesConcurrently_def)
    then have f1: "fetchesWithin ?P w w1"
    proof (rule fetchesWithin_mono)
      fix f assume "leafFetch env cfg ?sl country ?lq (progressData w) f"
      moreover have "set ?sl \<subseteq> set allStates" using sh by blast
      ultimately have "leafFetch env cfg allStates country ?lq (progressData w) f"
        by (rule leafFetch_subset [rotated])
      with l s show "?P f" unfolding remainingLeaf_def by blast
    qed
    show ?thesis
    proof (cases r)
      case (Inl e)
      with l s ps f1 show ?thesis by (simp add: processCountry_try_def Let_def)
    next
      case (Inr countryBusinesses)
      obtain r2 w2 where ex: "exportResults env cfg (removeDuplicates countryBusinesses) query
          (iso2 country) (name country) w1 = (r2, w2)"
        by (cases "exportResults env cfg (removeDuplicates countryBusinesses) query (iso2 country) (name country) w1")
      have "quiet w1 w2"
        using quiet_exportResults [of w1 env cfg "removeDuplicates countryBusinesses" query "iso2 country" "name country"] ex
        by simp
      with f1 have f2: "fetchesWithin ?P w w2"
        using fetchesWithin_quiet fetchesWithin_trans by blast
      show ?thesis
      proof (cases "markCountryComplete (progressData w2) (iso2 country)")
        case (Inl e)
        with l s ps Inr ex f2 show ?thesis
          by (simp add: processCountry_try_def Let_def split: option.split)
      next
        case m: (Inr pd)
        have "fetchesWithin ?P w (w2\<lparr>progressData := pd\<rparr>)"
          using f2 fetchesWithin_mark [OF doneMono_markCountry [OF m]] by (rule fetchesWithin_trans)
        then have "fetchesWithin ?P w (saveProgress env cfg query (iso2 country) pd (w2\<lparr>progressData := pd\<rparr>))"
          using fetchesWithin_quiet [OF quiet_saveProgress] by (rule fetchesWithin_trans)
        with l s ps Inr ex f2 m show ?thesis
          by (simp add: processCountry_try_def Let_def split: option.split)
      qed
    qed
  qed
qed

text \<open>
  The half of the resume property that the code has. Whatever
  \<^verbatim>\<open>progress.json\<close> holds when \<^verbatim>\<open>processCountry\<close> loads it, and
  provided the shuffle invents no element: if the loaded tree marks the
  country complete, the run calls the fetcher not once; otherwise every call
  of the fetcher it makes is the search of a leaf that the loaded tree does
  not mark: of a state not marked (city mode off), or of a city not marked
  under a state not marked (city mode on). No call is made for a leaf the tree
  marks complete.
\<close>

lemma fetches_are_of_remaining_leaves:
  assumes "\<forall>tr xs. set (shuffle env tr xs) \<subseteq> set xs"
  shows "\<exists>evs. trace (snd (processCountry env cfg country query w)) = trace w @ evs
     \<and> (isCountryDone (fst (loadProgress env cfg query (iso2 country) w)) (iso2 country)
          \<longrightarrow> fetchesOf evs = [])
     \<and> (\<forall>f \<in> set (fetchesOf evs).
          remainingLeaf env cfg (fst (loadProgress env cfg query (iso2 country) w)) country query f)"
proof -
  obtain pd w0 where lp: "loadProgress env cfg query (iso2 country) w = (pd, w0)"
    by (cases "loadProgress env cfg query (iso2 country) w")
  from loadProgress_effect [of env cfg query "iso2 country" w] lp obtain evs0 where
    e0: "trace w0 = trace w @ evs0" "fetchesOf evs0 = []"
    by auto
  let ?w1 = "w0\<lparr>progressData := pd\<rparr>"
  show ?thesis
  proof (cases "isCountryDone pd (iso2 country)")
    case True
    with lp e0 show ?thesis
      by (intro exI [of _ evs0]) (simp add: processCountry_def)
  next
    case False
    from processCountry_try_effect [OF assms, of cfg ?w1 country query] obtain evs where
      e: "trace (snd (processCountry_try env cfg country query ?w1)) = trace ?w1 @ evs"
        "\<forall>f \<in> set (fetchesOf evs). remainingLeaf env cfg pd country query f"
      unfolding fetchesWithin_def by auto
    obtain r w2 where pt: "processCountry_try env cfg country query ?w1 = (r, w2)"
      by (cases "processCountry_try env cfg country query ?w1")
    have "snd (processCountry env cfg country query w) = w2"
      using lp False pt by (cases r) (simp_all add: processCountry_def)
    moreover have "trace w2 = trace w0 @ evs" using e(1) pt by simp
    ultimately have "trace (snd (processCountry env cfg country query w)) = trace w @ (evs0 @ evs)"
      using e0(1) by simp
    moreover have "\<forall>f \<in> set (fetchesOf (evs0 @ evs)). remainingLeaf env cfg pd country query f"
      using e(2) e0(2) by simp
    ultimately show ?thesis using lp False by (intro exI [of _ "evs0 @ evs"]) simp
  qed
qed

lemma fetches_are_of_remaining_leaves_example:
  "(\<exists>evs. trace (snd (processCountry scenarioEnv scenarioConfig macedonia ''pumps'' completedWorld))
        = trace completedWorld @ evs \<and> fetchesOf evs = [])
   \<and> fetchesOf (trace (snd (processCountry scenarioEnv scenarioConfig macedonia ''pumps'' resumedWorld)))
     = [(''pumps near Ohrid Macedonia'', ''MK'')]"
proof -
  have sh: "\<forall>tr xs. set (shuffle scenarioEnv tr xs) \<subseteq> set xs" by (simp add: scenarioEnv_def)
  have d: "isCountryDone (fst (loadProgress scenarioEnv scenarioConfig ''pumps'' (iso2 macedonia) completedWorld))
      (iso2 macedonia)"
    by (simp add: run_defs scenario_defs completedWorld_def)
  from fetches_are_of_remaining_leaves [OF sh, of scenarioConfig macedonia "''pumps''" completedWorld] d
  have a: "\<exists>evs. trace (snd (processCountry scenarioEnv scenarioConfig macedonia ''pumps'' completedWorld))
        = trace completedWorld @ evs \<and> fetchesOf evs = []"
    by blast
  have b: "fetchesOf (trace (snd (processCountry scenarioEnv scenarioConfig macedonia ''pumps'' resumedWorld)))
     = [(''pumps near Ohrid Macedonia'', ''MK'')]"
    by (simp add: run_defs scenario_defs resumedWorld_def)
  from a b show ?thesis by blast
qed

text \<open>
  The loop over the states ends with an error as soon as it meets a state that
  is not marked: the states after it are not looked at.
\<close>

lemma processStates_loop_stops_at_open_state:
  assumes "Some state \<in> set stateList"
      and "\<not> isStateDone (progressData w) (stateKey country state)"
  shows "\<exists>e. fst (processStates_loop env cfg stateList country query localizedQuery found w) = Inl e"
  using assms
proof (induction stateList)
  case Nil
  then show ?case by simp
next
  case (Cons entry rest)
  show ?case
  proof (cases entry)
    case None
    with Cons show ?thesis by simp
  next
    case (Some first)
    show ?thesis
    proof (cases "isStateDone (progressData w) (stateKey country first)")
      case True
      with Some Cons show ?thesis by auto
    next
      case False
      obtain r w1 where ps: "processState env cfg first country query localizedQuery w = (r, w1)"
        by (cases "processState env cfg first country query localizedQuery w")
      with processState_always_throws [of env cfg first country query localizedQuery w]
      obtain e where "r = Inl e" by auto
      with Some False ps show ?thesis by simp
    qed
  qed
qed

text \<open>
  C5 fails on the code. The country has the states Bitola, Ohrid and Skopje,
  every search succeeds, and \<^verbatim>\<open>progress.json\<close> marks Bitola complete, so
  Ohrid and Skopje remain. The run skips Bitola and searches Ohrid; then line
  895 throws, \<^verbatim>\<open>processCountry\<close> catches the error and returns
  \<^verbatim>\<open>[]\<close>: Skopje, a remaining leaf, is never searched. The tree on disk
  is as it was, so a second run searches Ohrid again and stops at the same
  place.
\<close>

theorem resume_leaves_open_state_unsearched:
  "isStateDone (fst (loadProgress threeStatesEnv scenarioConfig ''pumps'' ''MK'' resumedWorld)) ''MK-Bitola''
   \<and> \<not> isStateDone (fst (loadProgress threeStatesEnv scenarioConfig ''pumps'' ''MK'' resumedWorld)) ''MK-Ohrid''
   \<and> \<not> isStateDone (fst (loadProgress threeStatesEnv scenarioConfig ''pumps'' ''MK'' resumedWorld)) ''MK-Skopje''
   \<and> fetchesOf (trace (snd (processCountry threeStatesEnv scenarioConfig macedonia ''pumps'' resumedWorld)))
     = [(''pumps near Ohrid Macedonia'', ''MK'')]
   \<and> fst (processCountry threeStatesEnv scenarioConfig macedonia ''pumps'' resumedWorld) = []
   \<and> files (snd (processCountry threeStatesEnv scenarioConfig macedonia ''pumps'' resumedWorld))
        (progressPath scenarioConfig ''pumps'' ''MK'')
     = files resumedWorld (progressPath scenarioConfig ''pumps'' ''MK'')
   \<and> fetchesOf (trace (snd (processCountry threeStatesEnv scenarioConfig macedonia ''pumps''
        (snd (processCountry threeStatesEnv scenarioConfig macedonia ''pumps'' resumedWorld)))))
     = [(''pumps near Ohrid Macedonia'', ''MK''), (''pumps near Ohrid Macedonia'', ''MK'')]"
  by (simp add: run_defs scenario_defs resumedWorld_def threeStatesEnv_def skopje_def)

text \<open>
  C8. At every instant of \<^verbatim>\<open>processCitiesConcurrently\<close> (after the start
  and any number of resumptions, under any scheduler) the pool has exactly
  \<^verbatim>\<open>CONFIG.parallel\<close> workers, so at most that many are inside
  \<^verbatim>\<open>searchMapsWithRetry\<close>; the indices taken from \<^verbatim>\<open>cityIndex\<close> since
  the call are 0, 1, ... up to the cursor, each exactly once. The run of the
  function is this sequence of instants: it has ended after at most
  \<open>remaining\<close> resumptions, and the function returns the results of the
  pool it ends in.
\<close>

theorem pool_bounded_and_each_index_claimed_once:
  "length (workers (fst (poolAt n env cfg cities state country query lq w))) = parallel cfg
   \<and> length (filter inExecute (workers (fst (poolAt n env cfg cities state country query lq w)))) \<le> parallel cfg
   \<and> (\<exists>evs. trace (snd (poolAt n env cfg cities state country query lq w)) = trace w @ evs
         \<and> claimsOf evs = [0..<cityIndex (fst (poolAt n env cfg cities state country query lq w))]
         \<and> distinct (claimsOf evs))
   \<and> poolAt (remaining (retryCount cfg) cities (fst (startPool cfg cities state country lq w)) + n)
        env cfg cities state country query lq w
     = runWorkers env cfg cities state country query lq (startPool cfg cities state country lq w)
   \<and> processCitiesConcurrently env cfg cities state country query lq w
     = (results (fst (runWorkers env cfg cities state country query lq (startPool cfg cities state country lq w))),
        snd (runWorkers env cfg cities state country query lq (startPool cfg cities state country lq w)))"
proof -
  let ?pw = "poolAt n env cfg cities state country query lq w"
  have inv: "poolInv cities state country lq w (parallel cfg) ?pw" by (rule poolInv_poolAt)
  then have len: "length (workers (fst ?pw)) = parallel cfg" by (simp add: poolInv_def)
  have "length (filter inExecute (workers (fst ?pw))) \<le> length (workers (fst ?pw))"
    by (rule length_filter_le)
  with len have bound: "length (filter inExecute (workers (fst ?pw))) \<le> parallel cfg" by simp
  from inv obtain evs where "trace (snd ?pw) = trace w @ evs" "claimsOf evs = [0..<cityIndex (fst ?pw)]"
    unfolding poolInv_def by blast
  then have claims: "\<exists>evs. trace (snd ?pw) = trace w @ evs \<and> claimsOf evs = [0..<cityIndex (fst ?pw)]
      \<and> distinct (claimsOf evs)"
    by (intro exI [of _ evs]) simp
  have fin: "poolAt (remaining (retryCount cfg) cities (fst (startPool cfg cities state country lq w)) + n)
        env cfg cities state country query lq w
     = runWorkers env cfg cities state country query lq (startPool cfg cities state country lq w)"
    unfolding poolAt_def by (rule runWorkers_runSteps) simp
  have "processCitiesConcurrently env cfg cities state country query lq w
     = (results (fst (runWorkers env cfg cities state country query lq (startPool cfg cities state country lq w))),
        snd (runWorkers env cfg cities state country query lq (startPool cfg cities state country lq w)))"
    by (simp add: processCitiesConcurrently_def split: prod.split)
  with len bound claims fin show ?thesis by blast
qed

theorem pool_bounded_and_each_index_claimed_once_witness:
  "length (workers (fst (poolAt 3 scenarioEnv scenarioConfig threeCities bitola macedonia ''pumps'' ''pumps'' freshWorld))) = 2
   \<and> length (filter inExecute
        (workers (fst (poolAt 3 scenarioEnv scenarioConfig threeCities bitola macedonia ''pumps'' ''pumps'' freshWorld)))) \<le> 2"
  using pool_bounded_and_each_index_claimed_once
    [of 3 scenarioEnv scenarioConfig threeCities bitola macedonia "''pumps''" "''pumps''" freshWorld]
  by (simp add: scenarioConfig_def)

end
